theory Spec2Isabelle
  imports Main "HOL-Library.Word"
begin

section \<open>The Darwin UDP datapath of MsQuic (src/platform/datapath\_darwin.c)\<close>

text \<open>
  A shallow embedding of the datapath: every C structure the functions below touch is a
  record, a pointer is an address (\<open>ptr\<close>) and a nullable pointer a \<open>ptr option\<close>
  (\<open>None\<close> is NULL), a fixed-size C array is a list whose index is checked before it is
  used, and what ends the process (a failed \<open>QUIC_FRE_ASSERT\<close> with the text of its
  condition, an \<open>int3\<close> breakpoint, a NULL or dangling dereference, an access outside
  an array) is a value of type \<open>stop\<close>, returned on the left of a sum.
  \<open>QUIC_DBG_ASSERT\<close> is compiled out of release builds and is not modelled, and
  neither is what \<open>printf\<close> writes.
  \<open>size_t\<close> counters are natural numbers: none of them can reach \<open>2 ^ 64\<close> here.
\<close>

subsection \<open>Constants\<close>

type_synonym ptr = nat

datatype stop = FRE_ASSERT string | BREAKPOINT | NULL_DEREFERENCE | OUT_OF_BOUNDS

definition QUIC_MAX_BATCH_SEND :: nat where
  "QUIC_MAX_BATCH_SEND = 10"

text \<open>
  The address families, protocol levels, option names and error numbers come from the
  system headers of Darwin, which are not part of the repository; the values are those of
  the macOS SDK (\<open>IPV6_PKTINFO\<close> under \<open>__APPLE_USE_RFC_3542\<close>).
\<close>

definition AF_INET :: "8 word" where "AF_INET = 2"
definition AF_INET6 :: "8 word" where "AF_INET6 = 30"

definition IPPROTO_IP :: int where "IPPROTO_IP = 0"
definition IPPROTO_IPV6 :: int where "IPPROTO_IPV6 = 41"
definition SOL_SOCKET :: int where "SOL_SOCKET = 65535"

definition IP_RECVDSTADDR :: int where "IP_RECVDSTADDR = 7"
definition IP_RECVIF :: int where "IP_RECVIF = 20"
definition IP_PKTINFO :: int where "IP_PKTINFO = 26"
definition IPV6_V6ONLY :: int where "IPV6_V6ONLY = 27"
definition IPV6_RECVPKTINFO :: int where "IPV6_RECVPKTINFO = 61"
definition IPV6_PKTINFO :: int where "IPV6_PKTINFO = 46"
definition SO_REUSEADDR :: int where "SO_REUSEADDR = 4"

definition EAGAIN :: int where "EAGAIN = 35"
definition EWOULDBLOCK :: int where "EWOULDBLOCK = 35"

definition INVALID_SOCKET_FD :: int where "INVALID_SOCKET_FD = -1"
definition SOCKET_ERROR :: int where "SOCKET_ERROR = -1"

text \<open>
  Modelled from the spec: \<open>QUIC_STATUS\<close> and \<open>QUIC_FAILED\<close> are declared in the
  platform headers, outside this file. The spec's error taxonomy names the statuses the
  datapath returns, and passes socket errors through as the number the OS gave.
\<close>

datatype QUIC_STATUS =
    QUIC_STATUS_SUCCESS
  | QUIC_STATUS_OUT_OF_MEMORY
  | QUIC_STATUS_INTERNAL_ERROR
  | QUIC_STATUS_ERRNO int

definition QUIC_FAILED :: "QUIC_STATUS \<Rightarrow> bool" where
  "QUIC_FAILED s = (s \<noteq> QUIC_STATUS_SUCCESS)"

text \<open>
  Modelled from the spec: \<open>QUIC_MAX_MTU\<close>, \<open>QUIC_MIN_IPV4_HEADER_SIZE\<close> and
  \<open>QUIC_UDP_HEADER_SIZE\<close> are defined outside this file (the IPv4 minimum header and
  the UDP header are deducted from the MTU to size the receive I/O vector).
\<close>

definition QUIC_MAX_MTU :: "16 word" where "QUIC_MAX_MTU = 1500"
definition QUIC_MIN_IPV4_HEADER_SIZE :: nat where "QUIC_MIN_IPV4_HEADER_SIZE = 20"
definition QUIC_UDP_HEADER_SIZE :: nat where "QUIC_UDP_HEADER_SIZE = 8"

subsection \<open>Structures\<close>

text \<open>
  Modelled from the spec: \<open>QUIC_ADDR\<close> is declared outside this file; the spec has it
  as a sockaddr union over IPv4 and IPv6. The record holds the fields of the union by
  their offsets: \<open>Ip.sa_family\<close>, \<open>Ipv4.sin_family\<close> and \<open>Ipv6.sin6_family\<close> are
  one field, \<open>Ipv4.sin_port\<close> and \<open>Ipv6.sin6_port\<close> are one field, \<open>Ipv4.sin_addr\<close>
  lies over \<open>Ipv6.sin6_flowinfo\<close>, and \<open>Ipv6.sin6_addr\<close> and \<open>Ipv6.sin6_scope_id\<close>
  follow.
\<close>

record QUIC_ADDR =
  sa_family :: "8 word"
  sin_port :: "16 word"
  sin_addr :: "32 word"
  sin6_addr :: "128 word"
  sin6_scope_id :: "32 word"

definition zero_addr :: QUIC_ADDR where
  "zero_addr = \<lparr>sa_family = 0, sin_port = 0, sin_addr = 0, sin6_addr = 0, sin6_scope_id = 0\<rparr>"

record QUIC_TUPLE =
  Tuple_LocalAddress :: QUIC_ADDR
  Tuple_RemoteAddress :: QUIC_ADDR

record QUIC_BUFFER =
  Length :: "32 word"
  Buffer :: "ptr option"

record iovec =
  iov_base :: "ptr option"
  iov_len :: nat

definition zero_buffer :: QUIC_BUFFER where
  "zero_buffer = \<lparr>Length = 0, Buffer = None\<rparr>"

definition zero_iovec :: iovec where
  "zero_iovec = \<lparr>iov_base = None, iov_len = 0\<rparr>"

text \<open>
  \<open>QUIC_DATAPATH_SEND_CONTEXT\<close>. \<open>Owner\<close> points at a processor context of the
  datapath: it is the index of that context in \<open>ProcContexts\<close>. The linkage field is the
  membership of the context's address in a socket context's pending list.
\<close>

record QUIC_DATAPATH_SEND_CONTEXT =
  Bind :: bool
  SC_LocalAddress :: QUIC_ADDR
  SC_RemoteAddress :: QUIC_ADDR
  Pending :: bool
  Owner :: nat
  BufferCount :: nat
  CurrentIndex :: nat
  Buffers :: "QUIC_BUFFER list"
  Iovs :: "iovec list"

text \<open>
  Modelled from the spec: \<open>QUIC_POOL\<close>, \<open>QuicPoolAlloc\<close> and \<open>QuicPoolFree\<close> are
  platform primitives outside this file. The spec has a pool as a free list: \<open>alloc\<close>
  returns an element or nil on exhaustion, \<open>free\<close> pushes the element back.
\<close>

type_synonym QUIC_POOL = "ptr list"

definition QuicPoolAlloc :: "QUIC_POOL \<Rightarrow> ptr option \<times> QUIC_POOL" where
  "QuicPoolAlloc pool = (case pool of [] \<Rightarrow> (None, []) | a # rest \<Rightarrow> (Some a, rest))"

definition QuicPoolFree :: "QUIC_POOL \<Rightarrow> ptr \<Rightarrow> QUIC_POOL" where
  "QuicPoolFree pool a = a # pool"

record QUIC_DATAPATH_PROC_CONTEXT =
  KqueueFd :: int
  Index :: "32 word"
  RecvBlockPool :: QUIC_POOL
  SendBufferPool :: QUIC_POOL
  SendContextPool :: QUIC_POOL

record QUIC_DATAPATH =
  DP_Shutdown :: bool
  MaxSendBatchSize :: "8 word"
  ClientRecvContextLength :: nat
  ProcCount :: "32 word"
  ProcContexts :: "QUIC_DATAPATH_PROC_CONTEXT list"

subsection \<open>Send contexts and their buffers\<close>

text \<open>
  \<open>QuicDataPathBindingAllocSendContext\<close>: the context comes from the send-context pool of
  processor context 0, is zeroed, and is owned by that context. The result is the
  address and the zeroed contents, or NULL.
\<close>

definition zero_send_context :: QUIC_DATAPATH_SEND_CONTEXT where
  "zero_send_context =
     \<lparr>Bind = False, SC_LocalAddress = zero_addr, SC_RemoteAddress = zero_addr,
      Pending = False, Owner = 0, BufferCount = 0, CurrentIndex = 0,
      Buffers = replicate QUIC_MAX_BATCH_SEND zero_buffer,
      Iovs = replicate QUIC_MAX_BATCH_SEND zero_iovec\<rparr>"

definition set_SendBufferPool ::
  "nat \<Rightarrow> QUIC_POOL \<Rightarrow> QUIC_DATAPATH \<Rightarrow> QUIC_DATAPATH" where
  "set_SendBufferPool i pool dp =
     dp\<lparr>ProcContexts := (ProcContexts dp)[i := (ProcContexts dp ! i)\<lparr>SendBufferPool := pool\<rparr>]\<rparr>"

definition set_SendContextPool ::
  "nat \<Rightarrow> QUIC_POOL \<Rightarrow> QUIC_DATAPATH \<Rightarrow> QUIC_DATAPATH" where
  "set_SendContextPool i pool dp =
     dp\<lparr>ProcContexts := (ProcContexts dp)[i := (ProcContexts dp ! i)\<lparr>SendContextPool := pool\<rparr>]\<rparr>"

definition QuicDataPathBindingAllocSendContext ::
  "QUIC_DATAPATH \<Rightarrow> stop + ((ptr \<times> QUIC_DATAPATH_SEND_CONTEXT) option \<times> QUIC_DATAPATH)" where
  "QuicDataPathBindingAllocSendContext dp =
     (if ProcContexts dp = [] then Inl OUT_OF_BOUNDS
      else
        (case QuicPoolAlloc (SendContextPool (ProcContexts dp ! 0)) of
           (None, pool) \<Rightarrow> Inr (None, set_SendContextPool 0 pool dp)
         | (Some p, pool) \<Rightarrow>
             Inr (Some (p, zero_send_context\<lparr>Owner := 0\<rparr>), set_SendContextPool 0 pool dp)))"

text \<open>
  \<open>QuicDataPathBindingAllocSendDatagram\<close>. The result pointer is \<open>None\<close> for NULL and
  \<open>Some i\<close> for \<open>&SendContext->Buffers[i]\<close>. The C function sets \<open>Buffer\<close> to the slot
  before it asks the pool for memory, and both the failure of the pool and the success
  leave through \<open>Exit\<close> with \<open>return Buffer\<close>.
\<close>

definition QuicDataPathBindingAllocSendDatagram ::
  "QUIC_DATAPATH \<Rightarrow> QUIC_DATAPATH_SEND_CONTEXT \<Rightarrow> 16 word \<Rightarrow>
     stop + (nat option \<times> QUIC_DATAPATH_SEND_CONTEXT \<times> QUIC_DATAPATH)" where
  "QuicDataPathBindingAllocSendDatagram dp SendContext MaxBufferLength =
     (if length (ProcContexts dp) \<le> Owner SendContext then Inl OUT_OF_BOUNDS
      else if BufferCount SendContext = unat (MaxSendBatchSize dp) then
        Inr (None, SendContext, dp)
      else if QUIC_MAX_BATCH_SEND \<le> BufferCount SendContext
                \<or> length (Buffers SendContext) \<noteq> QUIC_MAX_BATCH_SEND
                \<or> length (Iovs SendContext) \<noteq> QUIC_MAX_BATCH_SEND then Inl OUT_OF_BOUNDS
      else
        (let i = BufferCount SendContext;
             (mem, pool) = QuicPoolAlloc (SendBufferPool (ProcContexts dp ! Owner SendContext));
             dp' = set_SendBufferPool (Owner SendContext) pool dp
         in case mem of
              None \<Rightarrow>
                Inr (Some i, SendContext\<lparr>Buffers := (Buffers SendContext)[i := zero_buffer]\<rparr>, dp')
            | Some b \<Rightarrow>
                Inr (Some i,
                     SendContext
                       \<lparr>Buffers := (Buffers SendContext)
                           [i := \<lparr>Length = ucast MaxBufferLength, Buffer = Some b\<rparr>],
                        Iovs := (Iovs SendContext)
                           [i := \<lparr>iov_base = Some b, iov_len = unat MaxBufferLength\<rparr>],
                        BufferCount := BufferCount SendContext + 1\<rparr>,
                     dp')))"

definition QuicDataPathBindingIsSendContextFull ::
  "QUIC_DATAPATH \<Rightarrow> QUIC_DATAPATH_SEND_CONTEXT \<Rightarrow> bool" where
  "QuicDataPathBindingIsSendContextFull dp SendContext =
     (BufferCount SendContext = unat (MaxSendBatchSize dp))"


text \<open>
  \<open>QuicDataPathBindingFreeSendContext\<close>: each of the first \<open>BufferCount\<close> buffers goes
  back to the owner's send-buffer pool, then the context to the owner's send-context
  pool. The context's memory is gone afterwards, so only the datapath is returned.
\<close>

fun free_buffers :: "QUIC_POOL \<Rightarrow> QUIC_BUFFER list \<Rightarrow> stop + QUIC_POOL" where
  "free_buffers pool [] = Inr pool"
| "free_buffers pool (b # bs) =
     (case Buffer b of
        None \<Rightarrow> Inl NULL_DEREFERENCE
      | Some a \<Rightarrow> free_buffers (QuicPoolFree pool a) bs)"

definition QuicDataPathBindingFreeSendContext ::
  "QUIC_DATAPATH \<Rightarrow> ptr \<Rightarrow> QUIC_DATAPATH_SEND_CONTEXT \<Rightarrow> stop + QUIC_DATAPATH" where
  "QuicDataPathBindingFreeSendContext dp p SendContext =
     (if length (ProcContexts dp) \<le> Owner SendContext
         \<or> length (Buffers SendContext) < BufferCount SendContext then Inl OUT_OF_BOUNDS
      else
        (case free_buffers (SendBufferPool (ProcContexts dp ! Owner SendContext))
                (take (BufferCount SendContext) (Buffers SendContext)) of
           Inl e \<Rightarrow> Inl e
         | Inr pool \<Rightarrow>
             Inr (set_SendContextPool (Owner SendContext)
                    (QuicPoolFree (SendContextPool (ProcContexts dp ! Owner SendContext)) p)
                    (set_SendBufferPool (Owner SendContext) pool dp))))"

subsection \<open>The world outside: system calls, platform primitives, tracing\<close>

text \<open>
  What the datapath does to the outside is a chronological list of events: the system
  calls it issues with their arguments, the calls of platform primitives whose code is
  not in this file (the rundown references, the allocator), and the store
  \<open>Binding->Shutdown = TRUE\<close>, whose place among the calls is what the teardown of a
  binding is about. What a call returns is decided by the kernel, a function of the
  events so far, the call included.
\<close>

record in_pktinfo =
  ipi_ifindex :: "32 word"
  ipi_spec_dst :: "32 word"
  ipi_addr :: "32 word"

record in6_pktinfo =
  ipi6_addr :: "128 word"
  ipi6_ifindex :: "32 word"

datatype pktinfo = In_pktinfo in_pktinfo | In6_pktinfo in6_pktinfo

text \<open>The control message \<open>QuicDataPathBindingSend\<close> builds in its \<open>ControlBuffer\<close>.\<close>

record sent_cmsg =
  sent_level :: int
  sent_type :: int
  sent_data :: pktinfo

text \<open>
  The \<open>struct msghdr\<close> handed to \<open>sendmsg\<close>: \<open>msg_iov\<close> holds the first
  \<open>msg_iovlen\<close> entries of the array it points at.
\<close>

record msghdr =
  msg_name :: QUIC_ADDR
  msg_iov :: "iovec list"
  msg_iovlen :: nat
  msg_control :: sent_cmsg
  msg_flags :: int

datatype rundown = BindingsRundown | BindingRundown ptr

datatype kfilter = EVFILT_READ | EVFILT_WRITE

datatype kflag = EV_ADD | EV_CLEAR | EV_DELETE

datatype event =
    Sys_socket "8 word"
  | Sys_setsockopt int int int int
  | Sys_bind int QUIC_ADDR nat
  | Sys_connect int QUIC_ADDR nat
  | Sys_getsockname int nat
  | Sys_close int
  | Sys_kevent int int kfilter "kflag list"
  | Sys_sendto int "ptr option" "8 word list" "32 word" int "QUIC_ADDR option" nat
  | Sys_sendmsg int msghdr int
  | QUIC_ALLOC_PAGED nat
  | QUIC_FREE ptr
  | QuicRundownInitialize rundown
  | QuicRundownAcquire rundown
  | QuicRundownRelease rundown
  | QuicRundownReleaseAndWait rundown
  | QuicRundownUninitialize rundown
  | Store_Shutdown ptr

text \<open>
  Of the tracing, the two events of the send path that carry its address arguments are
  kept, in a log of their own that the kernel does not see.
\<close>

datatype trace_event =
    DatapathSendTo "32 word" QUIC_ADDR
  | DatapathSendFromTo "32 word" nat "32 word" QUIC_ADDR QUIC_ADDR

record sysret =
  ret :: int
  errno :: int
  sockname :: QUIC_ADDR
  memory :: "ptr option"

type_synonym kernel = "event list \<Rightarrow> sysret"

record world =
  events :: "event list"
  traced :: "trace_event list"
  bytes :: "ptr \<Rightarrow> 8 word list"

definition emit :: "event \<Rightarrow> world \<Rightarrow> world" where
  "emit e w = w\<lparr>events := events w @ [e]\<rparr>"

definition sys :: "kernel \<Rightarrow> event \<Rightarrow> world \<Rightarrow> sysret \<times> world" where
  "sys K e w = (K (events w @ [e]), emit e w)"

definition QuicTraceEvent :: "trace_event \<Rightarrow> world \<Rightarrow> world" where
  "QuicTraceEvent t w = w\<lparr>traced := traced w @ [t]\<rparr>"

subsection \<open>Socket contexts and bindings\<close>

text \<open>
  The ancillary area of a received message, as the list of control messages that
  \<open>CMSG_FIRSTHDR\<close> and \<open>CMSG_NXTHDR\<close> walk through. The payload of a message is kept
  as what each of the two casts of \<open>CMSG_DATA\<close> reads from it.
\<close>

record cmsghdr =
  cmsg_level :: int
  cmsg_type :: int
  as_in6_pktinfo :: in6_pktinfo
  as_in_pktinfo :: in_pktinfo

text \<open>
  \<open>QUIC_SOCKET_CONTEXT\<close>. \<open>RecvMsgHdr\<close> always points at \<open>RecvIov\<close> and at
  \<open>RecvMsgControl\<close>; its \<open>msg_name\<close> is the address of the receive block whose tuple
  takes the remote address. The back pointer to the binding is the place of the socket
  context inside its binding. \<open>CleanupFd\<close> and \<open>EventContexts\<close> are never used.
\<close>

record QUIC_SOCKET_CONTEXT =
  SocketFd :: int
  SendWaiting :: bool
  RecvIov :: iovec
  RecvMsgControl :: "cmsghdr list"
  RecvMsgHdr_msg_name :: "ptr option"
  CurrentRecvBlock :: "ptr option"
  PendingSendContextHead :: "ptr list"

text \<open>
  \<open>QUIC_DATAPATH_BINDING\<close>. There is one datapath, passed along with the binding; the
  operations on \<open>Rundown\<close> are events.
\<close>

record QUIC_DATAPATH_BINDING =
  ClientContext :: "ptr option"
  B_LocalAddress :: QUIC_ADDR
  B_RemoteAddress :: QUIC_ADDR
  Connected :: bool
  Shutdown :: bool
  Mtu :: "16 word"
  SocketContexts :: "QUIC_SOCKET_CONTEXT list"

subsection \<open>Sending\<close>

text \<open>
  What a send returns: the status, the send context if it is still allocated (\<open>None\<close>
  once it has been freed), and the datapath, the binding and the world as the call
  leaves them.
\<close>

record send_result =
  SR_Status :: QUIC_STATUS
  SR_SendContext :: "QUIC_DATAPATH_SEND_CONTEXT option"
  SR_Datapath :: QUIC_DATAPATH
  SR_Binding :: QUIC_DATAPATH_BINDING
  SR_World :: world

definition payload :: "world \<Rightarrow> QUIC_BUFFER \<Rightarrow> 8 word list" where
  "payload w b = (case Buffer b of None \<Rightarrow> [] | Some a \<Rightarrow> take (unat (Length b)) (bytes w a))"

text \<open>
  The loop of the connected path: \<open>for (i = CurrentIndex; i < BufferCount; ++i,
  CurrentIndex++)\<close>, one \<open>sendto\<close> per buffer with a NULL destination. The result is
  \<open>SendPending\<close>, \<open>Status\<close>, the context and the world at the label \<open>Exit\<close>.
\<close>

function sendto_loop ::
  "kernel \<Rightarrow> int \<Rightarrow> QUIC_ADDR \<Rightarrow> nat \<Rightarrow> QUIC_DATAPATH_SEND_CONTEXT \<Rightarrow> world \<Rightarrow>
     stop + (bool \<times> QUIC_STATUS \<times> QUIC_DATAPATH_SEND_CONTEXT \<times> world)" where
  "sendto_loop K fd RemoteAddress i SendContext w =
     (if i < BufferCount SendContext then
        (if length (Buffers SendContext) \<le> i then Inl OUT_OF_BOUNDS
         else
           (let b = Buffers SendContext ! i;
                w1 = QuicTraceEvent (DatapathSendTo (Length b) RemoteAddress) w;
                r = K (events w1 @ [Sys_sendto fd (Buffer b) (payload w1 b) (Length b) 0 None 0]);
                w2 = emit (Sys_sendto fd (Buffer b) (payload w1 b) (Length b) 0 None 0) w1
            in if ret r < 0 then
                 (if errno r = EAGAIN \<or> errno r = EWOULDBLOCK then
                    Inr (True, QUIC_STATUS_SUCCESS, SendContext, w2)
                  else Inr (False, QUIC_STATUS_ERRNO (errno r), SendContext, w2))
               else
                 sendto_loop K fd RemoteAddress (i + 1)
                   (SendContext\<lparr>CurrentIndex := CurrentIndex SendContext + 1\<rparr>) w2))
      else Inr (False, QUIC_STATUS_SUCCESS, SendContext, w))"
  by pat_completeness auto
termination
  by (relation "measure (\<lambda>(K, fd, RemoteAddress, i, SendContext, w). BufferCount SendContext - i)")
    auto

declare sendto_loop.simps [simp del]

text \<open>The first loop of the other path: the I/O vector is rebuilt from the buffers.\<close>

fun fill_iovs :: "QUIC_BUFFER list \<Rightarrow> iovec list \<Rightarrow> iovec list" where
  "fill_iovs (b # bs) (v # vs) = \<lparr>iov_base = Buffer b, iov_len = unat (Length b)\<rparr> # fill_iovs bs vs"
| "fill_iovs bs vs = vs"

definition TotalSize :: "QUIC_BUFFER list \<Rightarrow> 32 word" where
  "TotalSize bs = foldl (\<lambda>t b. t + Length b) 0 bs"

definition build_cmsg :: "QUIC_ADDR \<Rightarrow> sent_cmsg" where
  "build_cmsg LocalAddress =
     (if sa_family LocalAddress = AF_INET then
        \<lparr>sent_level = IPPROTO_IP, sent_type = IP_PKTINFO,
         sent_data = In_pktinfo
           \<lparr>ipi_ifindex = sin6_scope_id LocalAddress, ipi_spec_dst = 0,
            ipi_addr = sin_addr LocalAddress\<rparr>\<rparr>
      else
        \<lparr>sent_level = IPPROTO_IPV6, sent_type = IPV6_PKTINFO,
         sent_data = In6_pktinfo
           \<lparr>ipi6_addr = sin6_addr LocalAddress, ipi6_ifindex = sin6_scope_id LocalAddress\<rparr>\<rparr>)"

text \<open>
  The path with a local address: one \<open>sendmsg\<close> with the I/O vector and the control
  message. \<open>msg_name\<close> is \<open>MappedRemoteAddress\<close>, which is still all zero: the call
  that would fill it from \<open>RemoteAddress\<close> is commented out.
\<close>

definition sendmsg_path ::
  "kernel \<Rightarrow> int \<Rightarrow> QUIC_ADDR \<Rightarrow> QUIC_ADDR \<Rightarrow> QUIC_DATAPATH_SEND_CONTEXT \<Rightarrow> world \<Rightarrow>
     stop + (bool \<times> QUIC_STATUS \<times> QUIC_DATAPATH_SEND_CONTEXT \<times> world)" where
  "sendmsg_path K fd LocalAddress RemoteAddress SendContext w =
     (if length (Buffers SendContext) < BufferCount SendContext
         \<or> length (Iovs SendContext) < BufferCount SendContext
         \<or> Buffers SendContext = [] then Inl OUT_OF_BOUNDS
      else
        (let bs = take (BufferCount SendContext) (Buffers SendContext);
             sc = SendContext\<lparr>Iovs := fill_iovs bs (Iovs SendContext)\<rparr>;
             w1 = QuicTraceEvent
                    (DatapathSendFromTo (TotalSize bs) (BufferCount sc)
                       (Length (Buffers sc ! 0)) RemoteAddress LocalAddress) w;
             Mhdr = \<lparr>msg_name = zero_addr, msg_iov = take (BufferCount sc) (Iovs sc),
                     msg_iovlen = BufferCount sc, msg_control = build_cmsg LocalAddress,
                     msg_flags = 0\<rparr>;
             r = K (events w1 @ [Sys_sendmsg fd Mhdr 0]);
             w2 = emit (Sys_sendmsg fd Mhdr 0) w1
         in if ret r < 0 then
              (if errno r = EAGAIN \<or> errno r = EWOULDBLOCK then
                 Inr (True, QUIC_STATUS_SUCCESS, sc, w2)
               else Inr (False, QUIC_STATUS_ERRNO (errno r), sc, w2))
            else Inr (False, QUIC_STATUS_SUCCESS, sc, w2)))"

text \<open>
  \<open>QuicDataPathBindingSend\<close>. The socket context is \<open>SocketContexts[0]\<close>.
  \<open>RemoteAddrLen\<close> is computed from \<open>RemoteAddress\<close> and never used, so it has no
  place here. At \<open>Exit\<close> the context is freed unless \<open>SendPending\<close> is set; nothing
  else happens there.
\<close>

definition QuicDataPathBindingSend ::
  "kernel \<Rightarrow> QUIC_DATAPATH_BINDING \<Rightarrow> QUIC_ADDR option \<Rightarrow> QUIC_ADDR \<Rightarrow>
     ptr \<Rightarrow> QUIC_DATAPATH_SEND_CONTEXT \<Rightarrow> QUIC_DATAPATH \<Rightarrow> world \<Rightarrow> stop + send_result" where
  "QuicDataPathBindingSend K Binding LocalAddress RemoteAddress p SendContext dp w =
     (case SocketContexts Binding of
        [] \<Rightarrow> Inl OUT_OF_BOUNDS
      | SocketContext # _ \<Rightarrow>
          (case (case LocalAddress of
                   None \<Rightarrow>
                     sendto_loop K (SocketFd SocketContext) RemoteAddress
                       (CurrentIndex SendContext) SendContext w
                 | Some la \<Rightarrow>
                     sendmsg_path K (SocketFd SocketContext) la RemoteAddress SendContext w) of
             Inl e \<Rightarrow> Inl e
           | Inr (SendPending, Status, sc, w') \<Rightarrow>
               (if \<not> SendPending then
                  (case QuicDataPathBindingFreeSendContext dp p sc of
                     Inl e \<Rightarrow> Inl e
                   | Inr dp' \<Rightarrow>
                       Inr \<lparr>SR_Status = Status, SR_SendContext = None, SR_Datapath = dp',
                            SR_Binding = Binding, SR_World = w'\<rparr>)
                else
                  Inr \<lparr>SR_Status = Status, SR_SendContext = Some sc, SR_Datapath = dp,
                       SR_Binding = Binding, SR_World = w'\<rparr>)))"

definition QuicDataPathBindingSendTo ::
  "kernel \<Rightarrow> QUIC_DATAPATH_BINDING \<Rightarrow> QUIC_ADDR \<Rightarrow>
     ptr \<Rightarrow> QUIC_DATAPATH_SEND_CONTEXT \<Rightarrow> QUIC_DATAPATH \<Rightarrow> world \<Rightarrow> stop + send_result" where
  "QuicDataPathBindingSendTo K Binding RemoteAddress p SendContext dp w =
     QuicDataPathBindingSend K Binding None RemoteAddress p SendContext dp w"

text \<open>
  \<open>QuicDataPathBindingSendFromTo\<close>: the body is \<open>QUIC_FRE_ASSERT(FALSE)\<close>, and the
  \<open>return\<close> after it is never reached.
\<close>

definition QuicDataPathBindingSendFromTo ::
  "kernel \<Rightarrow> QUIC_DATAPATH_BINDING \<Rightarrow> QUIC_ADDR \<Rightarrow> QUIC_ADDR \<Rightarrow>
     ptr \<Rightarrow> QUIC_DATAPATH_SEND_CONTEXT \<Rightarrow> QUIC_DATAPATH \<Rightarrow> world \<Rightarrow> stop + send_result" where
  "QuicDataPathBindingSendFromTo K Binding LocalAddress RemoteAddress p SendContext dp w =
     Inl (FRE_ASSERT ''FALSE'')"


subsection \<open>Receive blocks\<close>

text \<open>
  Modelled from the spec: \<open>QUIC_RECV_DATAGRAM\<close> is declared outside this file; the spec
  lists its buffer pointer, length, tuple, partition index and \<open>next\<close> link, and has the
  length set to the byte count the kernel returned and the partition index equal to the
  index of the worker. Neither the spec nor this file gives the two fields a width, so
  they hold what is assigned to them: the length a byte count (\<open>BytesTransferred\<close> is a
  \<open>ssize_t\<close>), the partition index a value of the type of \<open>ProcContext->Index\<close>. A
  pointer to a datagram is the address of the receive block that contains it
  (\<open>QUIC_CONTAINING_RECORD\<close> leaves the address as it is), and \<open>Tuple\<close> and
  \<open>DG_Buffer\<close> are addresses of the block whose tuple and payload buffer they point at.
\<close>

record QUIC_RECV_DATAGRAM =
  Next :: "ptr option"
  Tuple :: "ptr option"
  DG_Buffer :: "ptr option"
  BufferLength :: int
  PartitionIndex :: "32 word"
  Allocated :: bool

text \<open>
  \<open>QUIC_DATAPATH_RECV_BLOCK\<close>. \<open>OwningPool\<close> points at the receive-block pool of a
  processor context: it is the index of that context.
\<close>

record QUIC_DATAPATH_RECV_BLOCK =
  OwningPool :: "nat option"
  RecvPacket :: QUIC_RECV_DATAGRAM
  RB_Tuple :: QUIC_TUPLE

definition zero_recv_block :: QUIC_DATAPATH_RECV_BLOCK where
  "zero_recv_block =
     \<lparr>OwningPool = None,
      RecvPacket = \<lparr>Next = None, Tuple = None, DG_Buffer = None, BufferLength = 0,
                    PartitionIndex = 0, Allocated = False\<rparr>,
      RB_Tuple = \<lparr>Tuple_LocalAddress = zero_addr, Tuple_RemoteAddress = zero_addr\<rparr>\<rparr>"

text \<open>
  The memory the receive path works on: the receive blocks that are allocated, by
  address, and the datapath with its pools. A block that goes back to its pool leaves
  \<open>blocks\<close>, so a later access through its address is a dangling dereference.
\<close>

record store =
  blocks :: "ptr \<rightharpoonup> QUIC_DATAPATH_RECV_BLOCK"
  datapath :: QUIC_DATAPATH

definition set_RecvBlockPool ::
  "nat \<Rightarrow> QUIC_POOL \<Rightarrow> QUIC_DATAPATH \<Rightarrow> QUIC_DATAPATH" where
  "set_RecvBlockPool i pool dp =
     dp\<lparr>ProcContexts := (ProcContexts dp)[i := (ProcContexts dp ! i)\<lparr>RecvBlockPool := pool\<rparr>]\<rparr>"

definition QuicDataPathAllocRecvBlock :: "nat \<Rightarrow> store \<Rightarrow> stop + (ptr option \<times> store)" where
  "QuicDataPathAllocRecvBlock ProcIndex s =
     (if length (ProcContexts (datapath s)) \<le> ProcIndex then Inl OUT_OF_BOUNDS
      else
        (case QuicPoolAlloc (RecvBlockPool (ProcContexts (datapath s) ! ProcIndex)) of
           (None, pool) \<Rightarrow>
             Inr (None, s\<lparr>datapath := set_RecvBlockPool ProcIndex pool (datapath s)\<rparr>)
         | (Some a, pool) \<Rightarrow>
             Inr (Some a,
                  s\<lparr>blocks := (blocks s)
                       (a \<mapsto> zero_recv_block
                          \<lparr>OwningPool := Some ProcIndex,
                           RecvPacket := (RecvPacket zero_recv_block)
                             \<lparr>DG_Buffer := Some a, Allocated := True\<rparr>\<rparr>),
                    datapath := set_RecvBlockPool ProcIndex pool (datapath s)\<rparr>)))"

text \<open>
  The body of the loop of \<open>QuicDataPathBindingReturnRecvDatagrams\<close> after the link has
  been read: \<open>QuicPoolFree(RecvBlock->OwningPool, RecvBlock)\<close>.
\<close>

definition free_recv_block :: "nat \<Rightarrow> ptr \<Rightarrow> store \<Rightarrow> store" where
  "free_recv_block pool a s =
     s\<lparr>blocks := (blocks s)(a := None),
       datapath := set_RecvBlockPool pool
         (QuicPoolFree (RecvBlockPool (ProcContexts (datapath s) ! pool)) a) (datapath s)\<rparr>"

text \<open>
  \<open>QuicDataPathBindingReturnRecvDatagrams\<close>: the \<open>while\<close> loop follows \<open>Next\<close> until
  NULL. On a chain that never reaches NULL it does not return, which is the value
  \<open>None\<close>.
\<close>

partial_function (option) QuicDataPathBindingReturnRecvDatagrams ::
  "ptr option \<Rightarrow> store \<Rightarrow> (stop + store) option" where
  "QuicDataPathBindingReturnRecvDatagrams DatagramChain s =
     (case DatagramChain of
        None \<Rightarrow> Some (Inr s)
      | Some Datagram \<Rightarrow>
          (case blocks s Datagram of
             None \<Rightarrow> Some (Inl NULL_DEREFERENCE)
           | Some RecvBlock \<Rightarrow>
               (case OwningPool RecvBlock of
                  None \<Rightarrow> Some (Inl NULL_DEREFERENCE)
                | Some pool \<Rightarrow>
                    (if length (ProcContexts (datapath s)) \<le> pool then Some (Inl OUT_OF_BOUNDS)
                     else QuicDataPathBindingReturnRecvDatagrams (Next (RecvPacket RecvBlock))
                            (free_recv_block pool Datagram s)))))"

subsection \<open>Receiving\<close>

text \<open>
  \<open>QuicSocketContextPrepareReceive\<close>: the block comes from the pool of processor
  context 0 when none is armed. Zeroing \<open>RecvMsgControl\<close> leaves no control message.
\<close>

definition QuicSocketContextPrepareReceive ::
  "QUIC_SOCKET_CONTEXT \<Rightarrow> store \<Rightarrow> stop + (QUIC_STATUS \<times> QUIC_SOCKET_CONTEXT \<times> store)" where
  "QuicSocketContextPrepareReceive SocketContext s =
     (case (case CurrentRecvBlock SocketContext of
              None \<Rightarrow> QuicDataPathAllocRecvBlock 0 s
            | Some a \<Rightarrow> Inr (Some a, s)) of
        Inl e \<Rightarrow> Inl e
      | Inr (None, s') \<Rightarrow> Inr (QUIC_STATUS_OUT_OF_MEMORY, SocketContext, s')
      | Inr (Some a, s') \<Rightarrow>
          (case blocks s' a of
             None \<Rightarrow> Inl NULL_DEREFERENCE
           | Some blk \<Rightarrow>
               Inr (QUIC_STATUS_SUCCESS,
                    SocketContext
                      \<lparr>CurrentRecvBlock := Some a,
                       RecvIov := (RecvIov SocketContext)\<lparr>iov_base := DG_Buffer (RecvPacket blk)\<rparr>,
                       RecvMsgControl := [],
                       RecvMsgHdr_msg_name := Some a\<rparr>,
                    s'\<lparr>blocks := (blocks s')
                         (a \<mapsto> blk\<lparr>RecvPacket := (RecvPacket blk)
                                     \<lparr>BufferLength := int (iov_len (RecvIov SocketContext)),
                                      Tuple := Some a\<rparr>\<rparr>)\<rparr>)))"

definition is_pktinfo :: "cmsghdr \<Rightarrow> bool" where
  "is_pktinfo CMsg =
     (cmsg_level CMsg = IPPROTO_IPV6 \<and> cmsg_type CMsg = IPV6_PKTINFO
      \<or> cmsg_level CMsg = IPPROTO_IP \<and> cmsg_type CMsg = IP_PKTINFO)"

text \<open>
  The walk over the control messages in \<open>QuicSocketContextRecvComplete\<close>, with its two
  \<open>break\<close>s. The result is \<open>FoundLocalAddr\<close> and what \<open>LocalAddr\<close> points at.
  \<open>QuicConvertFromMappedV6\<close> is defined outside this file and is the parameter
  \<open>conv\<close>; \<open>port\<close> is \<open>SocketContext->Binding->LocalAddress.Ipv6.sin6_port\<close>.
\<close>

fun walk_cmsgs ::
  "(QUIC_ADDR \<Rightarrow> QUIC_ADDR) \<Rightarrow> 16 word \<Rightarrow> cmsghdr list \<Rightarrow> QUIC_ADDR \<Rightarrow> bool \<times> QUIC_ADDR" where
  "walk_cmsgs conv port [] LocalAddr = (False, LocalAddr)"
| "walk_cmsgs conv port (CMsg # rest) LocalAddr =
     (if cmsg_level CMsg = IPPROTO_IPV6 \<and> cmsg_type CMsg = IPV6_PKTINFO then
        (True,
         (conv (LocalAddr\<lparr>sa_family := AF_INET6,
                          sin6_addr := ipi6_addr (as_in6_pktinfo CMsg),
                          sin_port := port\<rparr>))
           \<lparr>sin6_scope_id := ipi6_ifindex (as_in6_pktinfo CMsg)\<rparr>)
      else if cmsg_level CMsg = IPPROTO_IP \<and> cmsg_type CMsg = IP_PKTINFO then
        (True,
         LocalAddr\<lparr>sa_family := AF_INET,
                   sin_addr := ipi_addr (as_in_pktinfo CMsg),
                   sin_port := port,
                   sin6_scope_id := ipi_ifindex (as_in_pktinfo CMsg)\<rparr>)
      else walk_cmsgs conv port rest LocalAddr)"

text \<open>
  What \<open>QuicSocketContextRecvComplete\<close> returns: the datagram and the store as they are
  handed to the receive callback, and the socket context and the store at the end.
\<close>

record recv_result =
  RR_Datagram :: ptr
  RR_Delivered :: store
  RR_SocketContext :: QUIC_SOCKET_CONTEXT
  RR_Store :: store

text \<open>
  The end of \<open>QuicSocketContextRecvComplete\<close>, after the receive callback has returned
  the store \<open>after\<close>: the socket context, whose \<open>CurrentRecvBlock\<close> has been NULL
  since the first lines of the function, is prepared for the next receive, and
  \<open>QUIC_FRE_ASSERT(QUIC_SUCCEEDED(Status))\<close> follows. \<open>a\<close> and \<open>given\<close> are the
  datagram and the store the callback was called with.
\<close>

definition rearm_receive ::
  "QUIC_SOCKET_CONTEXT \<Rightarrow> ptr \<Rightarrow> store \<Rightarrow> store \<Rightarrow> stop + recv_result" where
  "rearm_receive SocketContext a given after =
     (case QuicSocketContextPrepareReceive (SocketContext\<lparr>CurrentRecvBlock := None\<rparr>) after of
        Inl e \<Rightarrow> Inl e
      | Inr (Status, sk, s') \<Rightarrow>
          (if QUIC_FAILED Status then Inl (FRE_ASSERT ''QUIC_SUCCEEDED(Status)'')
           else Inr \<lparr>RR_Datagram = a, RR_Delivered = given,
                     RR_SocketContext = sk, RR_Store = s'\<rparr>))"

text \<open>
  \<open>QuicSocketContextRecvComplete\<close>. The receive callback of the upper layer is the
  parameter \<open>RecvHandler\<close>: it gets the binding, the client context and the datagram,
  and may change the store (it may return datagrams to their pools). The binding is the
  one \<open>SocketContext->Binding\<close> points at.
\<close>

definition QuicSocketContextRecvComplete ::
  "(QUIC_ADDR \<Rightarrow> QUIC_ADDR) \<Rightarrow>
   (QUIC_DATAPATH_BINDING \<Rightarrow> ptr option \<Rightarrow> ptr \<Rightarrow> store \<Rightarrow> store) \<Rightarrow>
   QUIC_DATAPATH_BINDING \<Rightarrow> QUIC_SOCKET_CONTEXT \<Rightarrow> QUIC_DATAPATH_PROC_CONTEXT \<Rightarrow> int \<Rightarrow>
   store \<Rightarrow> stop + recv_result" where
  "QuicSocketContextRecvComplete conv RecvHandler Binding SocketContext ProcContext
       BytesTransferred s =
     (case CurrentRecvBlock SocketContext of
        None \<Rightarrow> Inl NULL_DEREFERENCE
      | Some a \<Rightarrow>
          (case blocks s a of
             None \<Rightarrow> Inl NULL_DEREFERENCE
           | Some blk \<Rightarrow>
               (case Tuple (RecvPacket blk) of
                  None \<Rightarrow>
                    (if list_ex is_pktinfo (RecvMsgControl SocketContext) then Inl NULL_DEREFERENCE
                     else Inl (FRE_ASSERT ''FoundLocalAddr''))
                | Some t \<Rightarrow>
                    (case blocks s t of
                       None \<Rightarrow>
                         (if list_ex is_pktinfo (RecvMsgControl SocketContext)
                          then Inl NULL_DEREFERENCE
                          else Inl (FRE_ASSERT ''FoundLocalAddr''))
                     | Some tb \<Rightarrow>
                         (let (FoundLocalAddr, LocalAddr) =
                                walk_cmsgs conv (sin_port (B_LocalAddress Binding))
                                  (RecvMsgControl SocketContext)
                                  (Tuple_LocalAddress (RB_Tuple tb))
                          in if \<not> FoundLocalAddr then Inl (FRE_ASSERT ''FoundLocalAddr'')
                             else
                               (let s1 = s\<lparr>blocks := (blocks s)
                                           (t \<mapsto> tb\<lparr>RB_Tuple := (RB_Tuple tb)
                                                        \<lparr>Tuple_LocalAddress := LocalAddr\<rparr>\<rparr>)\<rparr>;
                                    blk1 = (if t = a
                                            then tb\<lparr>RB_Tuple := (RB_Tuple tb)
                                                        \<lparr>Tuple_LocalAddress := LocalAddr\<rparr>\<rparr>
                                            else blk);
                                    s2 = s1\<lparr>blocks := (blocks s1)
                                           (a \<mapsto> blk1\<lparr>RecvPacket := (RecvPacket blk1)
                                               \<lparr>BufferLength := BytesTransferred,
                                                PartitionIndex := Index ProcContext\<rparr>\<rparr>)\<rparr>
                                in rearm_receive SocketContext a s2
                                     (RecvHandler Binding (ClientContext Binding) a s2)))))))"


subsection \<open>Creating a binding\<close>

definition set_SocketFd :: "nat \<Rightarrow> int \<Rightarrow> QUIC_DATAPATH_BINDING \<Rightarrow> QUIC_DATAPATH_BINDING" where
  "set_SocketFd i fd b =
     b\<lparr>SocketContexts := (SocketContexts b)[i := (SocketContexts b ! i)\<lparr>SocketFd := fd\<rparr>]\<rparr>"

text \<open>
  The label \<open>Exit\<close> of \<open>QuicSocketContextInitialize\<close> and the label \<open>Error\<close> of
  \<open>QuicSocketContextStartReceive\<close>: on failure the descriptor is closed and forgotten.
\<close>

definition close_on_failure ::
  "QUIC_STATUS \<Rightarrow> nat \<Rightarrow> QUIC_DATAPATH_BINDING \<Rightarrow> world \<Rightarrow> QUIC_DATAPATH_BINDING \<times> world" where
  "close_on_failure Status i b w =
     (if QUIC_FAILED Status then
        (set_SocketFd i INVALID_SOCKET_FD b, emit (Sys_close (SocketFd (SocketContexts b ! i))) w)
      else (b, w))"

text \<open>
  The options set through \<open>LOGSOCKOPT\<close>, whose results are printed and otherwise
  ignored.
\<close>

definition logged_sockopts :: "8 word \<Rightarrow> int \<Rightarrow> event list" where
  "logged_sockopts af_family fd =
     (if af_family = AF_INET then
        [Sys_setsockopt fd IPPROTO_IP IP_RECVDSTADDR 1,
         Sys_setsockopt fd IPPROTO_IP IP_PKTINFO 1,
         Sys_setsockopt fd IPPROTO_IP IP_RECVIF 1]
      else
        [Sys_setsockopt fd IPPROTO_IPV6 IPV6_RECVPKTINFO 1,
         Sys_setsockopt fd IPPROTO_IPV6 IPV6_V6ONLY 0,
         Sys_setsockopt fd IPPROTO_IPV6 IPV6_RECVPKTINFO 1])"

definition emits :: "event list \<Rightarrow> world \<Rightarrow> world" where
  "emits es w = w\<lparr>events := events w @ es\<rparr>"

text \<open>
  The end of \<open>QuicSocketContextInitialize\<close>: \<open>getsockname\<close> into
  \<open>Binding->LocalAddress\<close>. The kernel's \<open>sockname\<close> is what that field holds after
  the call.
\<close>

definition query_local_address ::
  "kernel \<Rightarrow> nat \<Rightarrow> QUIC_DATAPATH_BINDING \<Rightarrow> world \<Rightarrow>
     QUIC_STATUS \<times> QUIC_DATAPATH_BINDING \<times> world" where
  "query_local_address K i b w =
     (let fd = SocketFd (SocketContexts b ! i);
          (r, w1) = sys K (Sys_getsockname fd 16) w
      in if ret r = SOCKET_ERROR then
           (let (b', w') = close_on_failure (QUIC_STATUS_ERRNO (errno r)) i b w1
            in (QUIC_STATUS_ERRNO (errno r), b', w'))
         else (QUIC_STATUS_SUCCESS, b\<lparr>B_LocalAddress := sockname r\<rparr>, w1))"

text \<open>
  \<open>QuicSocketContextInitialize\<close> for the socket context \<open>SocketContexts[i]\<close> of the
  binding. \<open>socket\<close> is called twice, and both results are stored in \<open>SocketFd\<close>.
  The failure paths of \<open>socket\<close> and \<open>connect\<close> begin with an \<open>int3\<close>
  instruction, whose trap ends the process.
\<close>

definition QuicSocketContextInitialize ::
  "kernel \<Rightarrow> QUIC_ADDR option \<Rightarrow> QUIC_ADDR option \<Rightarrow> nat \<Rightarrow> QUIC_DATAPATH_BINDING \<Rightarrow> world \<Rightarrow>
     stop + (QUIC_STATUS \<times> QUIC_DATAPATH_BINDING \<times> world)" where
  "QuicSocketContextInitialize K LocalAddress RemoteAddress i Binding w =
     (if length (SocketContexts Binding) \<le> i then Inl OUT_OF_BOUNDS
      else
        (case (case RemoteAddress of
                 None \<Rightarrow> map_option sa_family LocalAddress
               | Some ra \<Rightarrow> Some (sa_family ra)) of
           None \<Rightarrow> Inl NULL_DEREFERENCE
         | Some af_family \<Rightarrow>
             (let (r1, w1) = sys K (Sys_socket af_family) w;
                  b1 = set_SocketFd i (ret r1) Binding;
                  (r2, w2) = sys K (Sys_socket AF_INET) w1;
                  b2 = set_SocketFd i (ret r2) b1;
                  fd = ret r2
              in if fd = INVALID_SOCKET_FD then Inl BREAKPOINT
                 else
                   (let w3 = emits (logged_sockopts af_family fd) w2;
                        AddrSize = (if af_family = AF_INET then 16 else 28);
                        (r4, w4) = sys K (Sys_setsockopt fd SOL_SOCKET SO_REUSEADDR 1) w3
                    in if ret r4 = SOCKET_ERROR then
                         (let (b', w') = close_on_failure (QUIC_STATUS_ERRNO (errno r4)) i b2 w4
                          in Inr (QUIC_STATUS_ERRNO (errno r4), b', w'))
                       else
                         (let (r5, w5) = sys K (Sys_bind fd (B_LocalAddress b2) 16) w4
                          in if ret r5 = SOCKET_ERROR then
                               (let (b', w') =
                                      close_on_failure (QUIC_STATUS_ERRNO (errno r5)) i b2 w5
                                in Inr (QUIC_STATUS_ERRNO (errno r5), b', w'))
                             else
                               (case RemoteAddress of
                                  None \<Rightarrow> Inr (query_local_address K i b2 w5)
                                | Some ra \<Rightarrow>
                                    (let (r6, w6) = sys K (Sys_connect fd ra AddrSize) w5
                                     in if ret r6 = SOCKET_ERROR then Inl BREAKPOINT
                                        else Inr (query_local_address K i b2 w6))))))))"

text \<open>\<open>QuicSocketContextStartReceive\<close> for \<open>SocketContexts[i]\<close>.\<close>

definition QuicSocketContextStartReceive ::
  "kernel \<Rightarrow> nat \<Rightarrow> int \<Rightarrow> QUIC_DATAPATH_BINDING \<Rightarrow> store \<Rightarrow> world \<Rightarrow>
     stop + (QUIC_STATUS \<times> QUIC_DATAPATH_BINDING \<times> store \<times> world)" where
  "QuicSocketContextStartReceive K i KqueueFd' Binding s w =
     (if length (SocketContexts Binding) \<le> i then Inl OUT_OF_BOUNDS
      else
        (case QuicSocketContextPrepareReceive (SocketContexts Binding ! i) s of
           Inl e \<Rightarrow> Inl e
         | Inr (Status, sk, s') \<Rightarrow>
             (let b1 = Binding\<lparr>SocketContexts := (SocketContexts Binding)[i := sk]\<rparr>
              in if QUIC_FAILED Status then
                   (let (b', w') = close_on_failure Status i b1 w in Inr (Status, b', s', w'))
                 else
                   (let (r, w1) =
                          sys K (Sys_kevent KqueueFd' (SocketFd sk) EVFILT_READ [EV_ADD, EV_CLEAR]) w
                    in if ret r < 0 then
                         (let (b', w') = close_on_failure QUIC_STATUS_INTERNAL_ERROR i b1 w1
                          in Inr (QUIC_STATUS_INTERNAL_ERROR, b', s', w'))
                       else Inr (Status, b1, s', w1)))))"

text \<open>The two loops of \<open>QuicDataPathBindingCreate\<close> that leave at the first failure.\<close>

fun init_sockets ::
  "kernel \<Rightarrow> QUIC_ADDR option \<Rightarrow> QUIC_ADDR option \<Rightarrow> nat list \<Rightarrow> QUIC_DATAPATH_BINDING \<Rightarrow> world \<Rightarrow>
     stop + (QUIC_STATUS \<times> QUIC_DATAPATH_BINDING \<times> world)" where
  "init_sockets K LocalAddress RemoteAddress [] b w = Inr (QUIC_STATUS_SUCCESS, b, w)"
| "init_sockets K LocalAddress RemoteAddress (i # rest) b w =
     (case QuicSocketContextInitialize K LocalAddress RemoteAddress i b w of
        Inl e \<Rightarrow> Inl e
      | Inr (Status, b', w') \<Rightarrow>
          (if QUIC_FAILED Status then Inr (Status, b', w')
           else init_sockets K LocalAddress RemoteAddress rest b' w'))"

fun start_receives ::
  "kernel \<Rightarrow> nat list \<Rightarrow> QUIC_DATAPATH_BINDING \<Rightarrow> store \<Rightarrow> world \<Rightarrow>
     stop + (QUIC_STATUS \<times> QUIC_DATAPATH_BINDING \<times> store \<times> world)" where
  "start_receives K [] b s w = Inr (QUIC_STATUS_SUCCESS, b, s, w)"
| "start_receives K (i # rest) b s w =
     (if length (ProcContexts (datapath s)) \<le> i then Inl OUT_OF_BOUNDS
      else
        (case QuicSocketContextStartReceive K i (KqueueFd (ProcContexts (datapath s) ! i)) b s w of
           Inl e \<Rightarrow> Inl e
         | Inr (Status, b', s', w') \<Rightarrow>
             (if QUIC_FAILED Status then Inr (Status, b', s', w')
              else start_receives K rest b' s' w')))"

definition zero_socket_context :: QUIC_SOCKET_CONTEXT where
  "zero_socket_context =
     \<lparr>SocketFd = 0, SendWaiting = False, RecvIov = zero_iovec, RecvMsgControl = [],
      RecvMsgHdr_msg_name = None, CurrentRecvBlock = None, PendingSendContextHead = []\<rparr>"

text \<open>
  What \<open>QuicDataPathBindingCreate\<close> returns: the status, what \<open>*NewBinding\<close> holds
  (\<open>None\<close> when it has not been written), the binding if it is still allocated, the
  store and the world.
\<close>

record create_result =
  CR_Status :: QUIC_STATUS
  CR_NewBinding :: "ptr option"
  CR_Binding :: "QUIC_DATAPATH_BINDING option"
  CR_Store :: store
  CR_World :: world

text \<open>
  The label \<open>Exit\<close> of \<open>QuicDataPathBindingCreate\<close>, reached with an allocated
  binding. Its comment reads \<open>TODO - Clean up socket contexts\<close>.
\<close>

definition create_exit ::
  "QUIC_STATUS \<Rightarrow> ptr option \<Rightarrow> ptr \<Rightarrow> QUIC_DATAPATH_BINDING \<Rightarrow> store \<Rightarrow> world \<Rightarrow> create_result" where
  "create_exit Status NewBinding p b s w =
     (if QUIC_FAILED Status then
        \<lparr>CR_Status = Status, CR_NewBinding = NewBinding, CR_Binding = None, CR_Store = s,
         CR_World = emits [QuicRundownRelease BindingsRundown,
                           QuicRundownUninitialize (BindingRundown p), QUIC_FREE p] w\<rparr>
      else
        \<lparr>CR_Status = Status, CR_NewBinding = NewBinding, CR_Binding = Some b, CR_Store = s,
         CR_World = w\<rparr>)"

text \<open>
  \<open>QuicDataPathBindingCreate\<close>, in three parts. The binding after
  \<open>QuicZeroMemory\<close>, the assignments that follow it and the first loop over its
  \<open>SocketCount\<close> socket contexts; \<open>local\<close> is what \<open>Binding->LocalAddress\<close> holds
  by then.
\<close>

definition new_binding :: "ptr option \<Rightarrow> QUIC_ADDR \<Rightarrow> nat \<Rightarrow> QUIC_DATAPATH_BINDING" where
  "new_binding RecvCallbackContext local SocketCount =
     \<lparr>ClientContext = RecvCallbackContext, B_LocalAddress = local,
      B_RemoteAddress = zero_addr, Connected = False, Shutdown = False,
      Mtu = QUIC_MAX_MTU,
      SocketContexts = replicate SocketCount
        (zero_socket_context
           \<lparr>SocketFd := INVALID_SOCKET_FD,
            RecvIov := zero_iovec
              \<lparr>iov_len := unat QUIC_MAX_MTU - QUIC_MIN_IPV4_HEADER_SIZE
                            - QUIC_UDP_HEADER_SIZE\<rparr>\<rparr>)\<rparr>"

text \<open>
  From the loop over \<open>QuicSocketContextInitialize\<close> to the end, for the binding
  allocated at address \<open>p\<close>: \<open>*NewBinding\<close> is written between the two loops.
\<close>

definition create_sockets ::
  "kernel \<Rightarrow> QUIC_ADDR option \<Rightarrow> QUIC_ADDR option \<Rightarrow> ptr \<Rightarrow> nat \<Rightarrow> QUIC_DATAPATH_BINDING \<Rightarrow>
     store \<Rightarrow> world \<Rightarrow> stop + create_result" where
  "create_sockets K LocalAddress RemoteAddress p SocketCount Binding s w =
     (case init_sockets K LocalAddress RemoteAddress [0..<SocketCount] Binding w of
        Inl e \<Rightarrow> Inl e
      | Inr (Status, b1, w1) \<Rightarrow>
          (if QUIC_FAILED Status then Inr (create_exit Status None p b1 s w1)
           else
             (case start_receives K [0..<SocketCount]
                     (case RemoteAddress of
                        None \<Rightarrow> b1
                      | Some ra \<Rightarrow> b1\<lparr>B_RemoteAddress := ra\<rparr>) s w1 of
                Inl e \<Rightarrow> Inl e
              | Inr (Status', b2, s', w2) \<Rightarrow>
                  Inr (create_exit Status' (Some p) p b2 s' w2))))"

text \<open>
  The whole function. The local address given by the caller is not copied into the
  binding (the call that would do it is commented out); without one, the binding takes
  the family of the remote address.
\<close>

definition QuicDataPathBindingCreate ::
  "kernel \<Rightarrow> QUIC_ADDR option \<Rightarrow> QUIC_ADDR option \<Rightarrow> ptr option \<Rightarrow> store \<Rightarrow> world \<Rightarrow>
     stop + create_result" where
  "QuicDataPathBindingCreate K LocalAddress RemoteAddress RecvCallbackContext s w =
     (let SocketCount = unat (ProcCount (datapath s));
          (r, w1) = sys K (QUIC_ALLOC_PAGED SocketCount) w
      in case memory r of
           None \<Rightarrow>
             Inr \<lparr>CR_Status = QUIC_STATUS_OUT_OF_MEMORY, CR_NewBinding = None,
                  CR_Binding = None, CR_Store = s, CR_World = w1\<rparr>
         | Some p \<Rightarrow>
             (case (case LocalAddress of
                      Some la \<Rightarrow> Some zero_addr
                    | None \<Rightarrow>
                        map_option (\<lambda>ra. zero_addr\<lparr>sa_family := sa_family ra\<rparr>) RemoteAddress) of
                None \<Rightarrow> Inl NULL_DEREFERENCE
              | Some local \<Rightarrow>
                  create_sockets K LocalAddress RemoteAddress p SocketCount
                    (new_binding RecvCallbackContext local SocketCount) s
                    (emits (QuicRundownInitialize (BindingRundown p)
                            # replicate SocketCount (QuicRundownAcquire (BindingRundown p))
                            @ [QuicRundownAcquire BindingsRundown]) w1)))"

subsection \<open>Deleting a binding\<close>

text \<open>
  \<open>QuicSocketContextUninitialize\<close>: the code that would remove the socket from the
  kqueue is commented out; what is left is \<open>close\<close> and the release of the rundown
  reference of the binding at address \<open>p\<close>.
\<close>

definition QuicSocketContextUninitialize :: "ptr \<Rightarrow> QUIC_SOCKET_CONTEXT \<Rightarrow> world \<Rightarrow> world" where
  "QuicSocketContextUninitialize p SocketContext w =
     emit (QuicRundownRelease (BindingRundown p)) (emit (Sys_close (SocketFd SocketContext)) w)"

text \<open>
  \<open>QuicDataPathBindingDelete\<close> for the binding at address \<open>p\<close>. The binding is freed,
  so what is left of the call is the world.
\<close>

definition QuicDataPathBindingDelete ::
  "ptr \<Rightarrow> QUIC_DATAPATH_BINDING \<Rightarrow> QUIC_DATAPATH \<Rightarrow> world \<Rightarrow> stop + world" where
  "QuicDataPathBindingDelete p Binding dp w =
     (if length (SocketContexts Binding) < unat (ProcCount dp) then Inl OUT_OF_BOUNDS
      else
        Inr (emits [QuicRundownReleaseAndWait (BindingRundown p),
                    QuicRundownRelease BindingsRundown,
                    QuicRundownUninitialize (BindingRundown p),
                    QUIC_FREE p]
               (foldl (\<lambda>w' sk. QuicSocketContextUninitialize p sk w')
                  (emit (Store_Shutdown p) w)
                  (take (unat (ProcCount dp)) (SocketContexts Binding)))))"

subsection \<open>The readiness queues of the kernel\<close>

text \<open>
  The file registers a socket with the kqueue of its worker and leaves the rest to the
  kernel. What the kernel holds is a list of read interests, pairs of a kqueue and a
  descriptor, and it follows from the events: by kqueue(2) of Darwin a \<open>kevent\<close> call
  that succeeds adds the interest with \<open>EV_ADD\<close> and removes it with \<open>EV_DELETE\<close>,
  and the \<open>close\<close> of a descriptor removes every interest in that descriptor (and, when
  the descriptor is a kqueue, every interest that queue holds).
\<close>

fun kevent_step :: "sysret \<Rightarrow> event \<Rightarrow> (int \<times> int) list \<Rightarrow> (int \<times> int) list" where
  "kevent_step r (Sys_kevent kq fd EVFILT_READ flags) regs =
     (if ret r < 0 then regs
      else if EV_DELETE \<in> set flags then removeAll (kq, fd) regs
      else if EV_ADD \<in> set flags then (kq, fd) # removeAll (kq, fd) regs
      else regs)"
| "kevent_step r (Sys_close fd) regs = filter (\<lambda>(kq, d). d \<noteq> fd \<and> kq \<noteq> fd) regs"
| "kevent_step r e regs = regs"

text \<open>
  The interests after the events \<open>es\<close> that follow the events \<open>past\<close>, from the
  interests \<open>regs\<close>; and the interests after a whole history.
\<close>

fun registered_from ::
  "kernel \<Rightarrow> event list \<Rightarrow> event list \<Rightarrow> (int \<times> int) list \<Rightarrow> (int \<times> int) list" where
  "registered_from K past [] regs = regs"
| "registered_from K past (e # es) regs =
     registered_from K (past @ [e]) es (kevent_step (K (past @ [e])) e regs)"

definition registered :: "kernel \<Rightarrow> event list \<Rightarrow> (int \<times> int) list" where
  "registered K es = registered_from K [] es []"

subsection \<open>Views of results and concrete inputs\<close>

text \<open>A function applied to what a call returns, when it returns.\<close>

definition on_result :: "('a \<Rightarrow> 'b) \<Rightarrow> stop + 'a \<Rightarrow> stop + 'b" where
  "on_result f x = (case x of Inl e \<Rightarrow> Inl e | Inr y \<Rightarrow> Inr (f y))"

text \<open>What the kernel and the caller can see of the state of the send loop at \<open>Exit\<close>.\<close>

definition loop_view ::
  "bool \<times> QUIC_STATUS \<times> QUIC_DATAPATH_SEND_CONTEXT \<times> world \<Rightarrow>
   bool \<times> QUIC_STATUS \<times> QUIC_DATAPATH_SEND_CONTEXT \<times> event list \<times> (ptr \<Rightarrow> 8 word list)" where
  "loop_view x = (case x of (pend, st, sc, w) \<Rightarrow> (pend, st, sc, events w, bytes w))"

text \<open>A \<open>sendto\<close> on the descriptor \<open>fd\<close> with flags 0 and a NULL destination.\<close>

fun is_null_sendto :: "int \<Rightarrow> event \<Rightarrow> bool" where
  "is_null_sendto fd (Sys_sendto fd' buf content len flags dest destlen) =
     (fd' = fd \<and> flags = 0 \<and> dest = None \<and> destlen = 0)"
| "is_null_sendto fd _ = False"

text \<open>
  What a send leaves behind, the trace log apart: the status, the context, the datapath,
  the binding and the events.
\<close>

definition observable ::
  "send_result \<Rightarrow> QUIC_STATUS \<times> QUIC_DATAPATH_SEND_CONTEXT option \<times> QUIC_DATAPATH
     \<times> QUIC_DATAPATH_BINDING \<times> event list" where
  "observable r = (SR_Status r, SR_SendContext r, SR_Datapath r, SR_Binding r, events (SR_World r))"

text \<open>
  The datapath as \<open>QuicDataPathInitialize\<close> leaves it: one processor context with
  index 0, \<open>MaxSendBatchSize = QUIC_MAX_BATCH_SEND\<close>, and the three pools.
\<close>

definition initialized_datapath ::
  "int \<Rightarrow> QUIC_POOL \<Rightarrow> QUIC_POOL \<Rightarrow> QUIC_POOL \<Rightarrow> QUIC_DATAPATH" where
  "initialized_datapath kq recv_pool buffer_pool context_pool =
     \<lparr>DP_Shutdown = False, MaxSendBatchSize = of_nat QUIC_MAX_BATCH_SEND,
      ClientRecvContextLength = 0, ProcCount = 1,
      ProcContexts =
        [\<lparr>KqueueFd = kq, Index = 0, RecvBlockPool = recv_pool,
          SendBufferPool = buffer_pool, SendContextPool = context_pool\<rparr>]\<rparr>"

text \<open>
  Concrete inputs: 127.0.0.1:4433 and [::1]:4434 on interface 4, a binding with one
  socket context on the descriptor \<open>fd\<close>, a send context with two buffers of three
  and two bytes, and a world in which nothing has happened yet.
\<close>

definition addr_v4 :: QUIC_ADDR where
  "addr_v4 = \<lparr>sa_family = AF_INET, sin_port = 4433, sin_addr = 0x7F000001, sin6_addr = 0,
              sin6_scope_id = 0\<rparr>"

definition addr_v6 :: QUIC_ADDR where
  "addr_v6 = \<lparr>sa_family = AF_INET6, sin_port = 4434, sin_addr = 0, sin6_addr = 1,
              sin6_scope_id = 4\<rparr>"

definition example_binding :: "int \<Rightarrow> QUIC_DATAPATH_BINDING" where
  "example_binding fd =
     \<lparr>ClientContext = Some 7, B_LocalAddress = addr_v4\<lparr>sin_port := 50000\<rparr>,
      B_RemoteAddress = addr_v4, Connected = False, Shutdown = False, Mtu = QUIC_MAX_MTU,
      SocketContexts = [zero_socket_context\<lparr>SocketFd := fd\<rparr>]\<rparr>"

definition two_buffers :: QUIC_DATAPATH_SEND_CONTEXT where
  "two_buffers =
     \<lparr>Bind = False, SC_LocalAddress = zero_addr, SC_RemoteAddress = zero_addr,
      Pending = False, Owner = 0, BufferCount = 2, CurrentIndex = 0,
      Buffers = [\<lparr>Length = 3, Buffer = Some 200\<rparr>, \<lparr>Length = 2, Buffer = Some 201\<rparr>,
                 zero_buffer, zero_buffer, zero_buffer, zero_buffer, zero_buffer,
                 zero_buffer, zero_buffer, zero_buffer],
      Iovs = [\<lparr>iov_base = Some 200, iov_len = 3\<rparr>, \<lparr>iov_base = Some 201, iov_len = 2\<rparr>,
              zero_iovec, zero_iovec, zero_iovec, zero_iovec, zero_iovec,
              zero_iovec, zero_iovec, zero_iovec]\<rparr>"

definition world0 :: world where
  "world0 = \<lparr>events = [], traced = [],
             bytes = (\<lambda>a. if a = 200 then [1, 2, 3] else if a = 201 then [4, 5] else [])\<rparr>"

text \<open>
  Kernels. A call that succeeds returns \<open>n\<close>, the local address 127.0.0.1:50000
  where one is asked for and the address 1000 where memory is asked for; a call that
  fails returns -1 and sets \<open>errno\<close>.
\<close>

definition sysret_ok :: "int \<Rightarrow> sysret" where
  "sysret_ok n = \<lparr>ret = n, errno = 0, sockname = addr_v4\<lparr>sin_port := 50000\<rparr>, memory = Some 1000\<rparr>"

definition sysret_failed :: "int \<Rightarrow> sysret" where
  "sysret_failed e = \<lparr>ret = -1, errno = e, sockname = zero_addr, memory = None\<rparr>"

text \<open>A kernel whose send buffer takes one datagram and then is full.\<close>

definition kernel_blocks_second :: kernel where
  "kernel_blocks_second es = (if length es < 2 then sysret_ok 3 else sysret_failed EWOULDBLOCK)"

text \<open>
  The \<open>sendto\<close> call the connected path issues for buffer \<open>i\<close> of a send context,
  and the calls of a send that gets as far as buffer \<open>j\<close>.
\<close>

definition sendto_of :: "int \<Rightarrow> world \<Rightarrow> QUIC_DATAPATH_SEND_CONTEXT \<Rightarrow> nat \<Rightarrow> event" where
  "sendto_of fd w sc i =
     Sys_sendto fd (Buffer (Buffers sc ! i)) (payload w (Buffers sc ! i))
       (Length (Buffers sc ! i)) 0 None 0"

definition sendtos :: "int \<Rightarrow> world \<Rightarrow> QUIC_DATAPATH_SEND_CONTEXT \<Rightarrow> nat \<Rightarrow> event list" where
  "sendtos fd w sc j = map (sendto_of fd w sc) [CurrentIndex sc ..< Suc j]"

text \<open>
  A send of the connected path meets \<open>EAGAIN\<close> or \<open>EWOULDBLOCK\<close> at buffer \<open>j\<close>:
  \<open>j\<close> is one of the buffers still to be sent, the kernel takes the buffers before it,
  and the \<open>sendto\<close> for buffer \<open>j\<close> fails with one of the two values in \<open>errno\<close>.
\<close>

definition blocks_at ::
  "kernel \<Rightarrow> int \<Rightarrow> world \<Rightarrow> QUIC_DATAPATH_SEND_CONTEXT \<Rightarrow> nat \<Rightarrow> bool" where
  "blocks_at K fd w sc j =
     (CurrentIndex sc \<le> j \<and> j < BufferCount sc \<and> j < length (Buffers sc)
      \<and> list_all (\<lambda>i. 0 \<le> ret (K (events w @ sendtos fd w sc i))) [CurrentIndex sc ..< j]
      \<and> ret (K (events w @ sendtos fd w sc j)) < 0
      \<and> (errno (K (events w @ sendtos fd w sc j)) = EAGAIN
         \<or> errno (K (events w @ sendtos fd w sc j)) = EWOULDBLOCK))"

text \<open>
  What a send leaves of the three records of a pending send: the \<open>Pending\<close> flag of
  the send context, and the pending list and \<open>SendWaiting\<close> of each socket context.
\<close>

definition pending_view :: "send_result \<Rightarrow> bool option \<times> ptr list list \<times> bool list" where
  "pending_view r =
     (map_option Pending (SR_SendContext r),
      map PendingSendContextHead (SocketContexts (SR_Binding r)),
      map SendWaiting (SocketContexts (SR_Binding r)))"

text \<open>A kernel that refuses nothing and numbers the descriptors it hands out.\<close>

definition kernel_ok :: kernel where
  "kernel_ok es =
     (case rev es of
        Sys_socket af # _ \<Rightarrow> sysret_ok (int (length es) + 2)
      | _ \<Rightarrow> sysret_ok 0)"

text \<open>
  A chain of datagrams in the store: \<open>recv_chain h c as\<close> holds when following
  \<open>Next\<close> from \<open>c\<close> visits exactly the blocks at the addresses \<open>as\<close>, in this
  order, and then reaches NULL.
\<close>

fun recv_chain :: "(ptr \<rightharpoonup> QUIC_DATAPATH_RECV_BLOCK) \<Rightarrow> ptr option \<Rightarrow> ptr list \<Rightarrow> bool" where
  "recv_chain h c [] = (c = None)"
| "recv_chain h c (a # as) =
     (c = Some a \<and>
      (case h a of None \<Rightarrow> False | Some blk \<Rightarrow> recv_chain h (Next (RecvPacket blk)) as))"

text \<open>
  The pool a block names, whether that pool is one of the datapath, and what a chain
  gives back to pool \<open>i\<close>, the block returned last on top.
\<close>

definition pool_of :: "(ptr \<rightharpoonup> QUIC_DATAPATH_RECV_BLOCK) \<Rightarrow> ptr \<Rightarrow> nat option" where
  "pool_of h a = (case h a of None \<Rightarrow> None | Some blk \<Rightarrow> OwningPool blk)"

definition owned :: "store \<Rightarrow> ptr \<Rightarrow> bool" where
  "owned s a =
     (case pool_of (blocks s) a of
        None \<Rightarrow> False
      | Some i \<Rightarrow> i < length (ProcContexts (datapath s)))"

definition returned_to :: "store \<Rightarrow> ptr list \<Rightarrow> nat \<Rightarrow> ptr list" where
  "returned_to s as i = rev (filter (\<lambda>a. pool_of (blocks s) a = Some i) as)"

text \<open>
  A block as \<open>QuicDataPathAllocRecvBlock\<close> and \<open>QuicSocketContextPrepareReceive\<close>
  leave it, owned by pool \<open>pool\<close>, at address \<open>a\<close>, linked to \<open>nxt\<close>; and a store
  with two workers and a chain of two blocks, one from each pool.
\<close>

definition recv_block :: "nat \<Rightarrow> ptr \<Rightarrow> ptr option \<Rightarrow> QUIC_DATAPATH_RECV_BLOCK" where
  "recv_block pool a nxt =
     zero_recv_block
       \<lparr>OwningPool := Some pool,
        RecvPacket := (RecvPacket zero_recv_block)
          \<lparr>Next := nxt, Tuple := Some a, DG_Buffer := Some a, Allocated := True\<rparr>\<rparr>"

definition two_pool_store :: store where
  "two_pool_store =
     \<lparr>blocks = [300 \<mapsto> recv_block 1 300 (Some 301), 301 \<mapsto> recv_block 0 301 None],
      datapath =
        \<lparr>DP_Shutdown = False, MaxSendBatchSize = 10, ClientRecvContextLength = 0, ProcCount = 2,
         ProcContexts =
           [\<lparr>KqueueFd = 3, Index = 0, RecvBlockPool = [302], SendBufferPool = [],
             SendContextPool = []\<rparr>,
            \<lparr>KqueueFd = 4, Index = 1, RecvBlockPool = [], SendBufferPool = [],
             SendContextPool = []\<rparr>]\<rparr>\<rparr>"

text \<open>
  Modelled from the spec: \<open>QuicConvertFromMappedV6\<close> is defined in the platform
  headers, outside this file. The spec has the normalisation of a v4-mapped v6 address
  to v4 as a total function between the two variants of an address; every other address
  is left as it is.
\<close>

definition IN6_IS_ADDR_V4MAPPED :: "128 word \<Rightarrow> bool" where
  "IN6_IS_ADDR_V4MAPPED a = (drop_bit 32 a = 0xFFFF)"

definition QuicConvertFromMappedV6 :: "QUIC_ADDR \<Rightarrow> QUIC_ADDR" where
  "QuicConvertFromMappedV6 InAddr =
     (if IN6_IS_ADDR_V4MAPPED (sin6_addr InAddr) then
        zero_addr\<lparr>sa_family := AF_INET, sin_port := sin_port InAddr,
                  sin_addr := ucast (sin6_addr InAddr)\<rparr>
      else InAddr)"

text \<open>A receive callback that keeps the datagram and touches nothing.\<close>

definition keep_datagram :: "QUIC_DATAPATH_BINDING \<Rightarrow> ptr option \<Rightarrow> ptr \<Rightarrow> store \<Rightarrow> store" where
  "keep_datagram Binding Context Datagram s = s"

text \<open>
  An \<open>IPV6_PKTINFO\<close> record for the address ::1 on interface 4, and a control
  message of another kind.
\<close>

definition pktinfo6 :: cmsghdr where
  "pktinfo6 =
     \<lparr>cmsg_level = IPPROTO_IPV6, cmsg_type = IPV6_PKTINFO,
      as_in6_pktinfo = \<lparr>ipi6_addr = 1, ipi6_ifindex = 4\<rparr>,
      as_in_pktinfo = \<lparr>ipi_ifindex = 0, ipi_spec_dst = 0, ipi_addr = 0\<rparr>\<rparr>"

definition other_cmsg :: cmsghdr where
  "other_cmsg = pktinfo6\<lparr>cmsg_level := SOL_SOCKET, cmsg_type := 2\<rparr>"

text \<open>
  A socket context armed with the block at address 300, holding the control messages
  \<open>cs\<close> of a received message, the store it lives in and its worker.
\<close>

definition armed_store :: store where
  "armed_store =
     \<lparr>blocks = [300 \<mapsto> recv_block 0 300 None],
      datapath = initialized_datapath 3 [302] [] []\<rparr>"

definition armed_socket :: "cmsghdr list \<Rightarrow> QUIC_SOCKET_CONTEXT" where
  "armed_socket cs =
     zero_socket_context
       \<lparr>SocketFd := 5, RecvIov := \<lparr>iov_base = Some 300, iov_len = 1472\<rparr>,
        RecvMsgControl := cs, RecvMsgHdr_msg_name := Some 300, CurrentRecvBlock := Some 300\<rparr>"

definition worker0 :: QUIC_DATAPATH_PROC_CONTEXT where
  "worker0 = \<lparr>KqueueFd = 3, Index = 0, RecvBlockPool = [302], SendBufferPool = [],
              SendContextPool = []\<rparr>"



text \<open>
  The socket contexts \<open>QuicDataPathBindingDelete\<close> goes through, the two events
  \<open>QuicSocketContextUninitialize\<close> leaves for one of them, and the events of a deletion
  up to and including the \<open>close\<close> of the descriptor of socket context \<open>k\<close>.
\<close>

definition torn_down :: "QUIC_DATAPATH_BINDING \<Rightarrow> QUIC_DATAPATH \<Rightarrow> QUIC_SOCKET_CONTEXT list" where
  "torn_down Binding dp = take (unat (ProcCount dp)) (SocketContexts Binding)"

definition uninitialize_steps :: "ptr \<Rightarrow> QUIC_SOCKET_CONTEXT \<Rightarrow> event list" where
  "uninitialize_steps p sk = [Sys_close (SocketFd sk), QuicRundownRelease (BindingRundown p)]"

definition steps_until_close :: "ptr \<Rightarrow> QUIC_SOCKET_CONTEXT list \<Rightarrow> nat \<Rightarrow> event list" where
  "steps_until_close p sks k =
     Store_Shutdown p # concat (map (uninitialize_steps p) (take k sks))
       @ [Sys_close (SocketFd (sks ! k))]"

fun is_kevent :: "event \<Rightarrow> bool" where
  "is_kevent (Sys_kevent kq fd f flags) = True"
| "is_kevent _ = False"

text \<open>
  A world in which the socket on descriptor 5 has been registered with the kqueue 3, as
  \<open>QuicSocketContextStartReceive\<close> does it.
\<close>

definition registered_world :: world where
  "registered_world = world0\<lparr>events := [Sys_kevent 3 5 EVFILT_READ [EV_ADD, EV_CLEAR]]\<rparr>"

text \<open>The release of a reference on the rundown of a binding.\<close>

fun is_binding_release :: "event \<Rightarrow> bool" where
  "is_binding_release (QuicRundownRelease (BindingRundown p)) = True"
| "is_binding_release _ = False"

text \<open>A store with no block allocated and \<open>recv_pool\<close> as the receive-block pool.\<close>

definition empty_store :: "QUIC_POOL \<Rightarrow> store" where
  "empty_store recv_pool =
     \<lparr>blocks = Map.empty, datapath = initialized_datapath 3 recv_pool [] []\<rparr>"

text \<open>A kernel that refuses the registration with the kqueue.\<close>

definition kernel_kevent_fails :: kernel where
  "kernel_kevent_fails es =
     (case rev es of
        Sys_socket af # _ \<Rightarrow> sysret_ok (int (length es) + 2)
      | Sys_kevent kq fd f flags # _ \<Rightarrow> sysret_failed 9
      | _ \<Rightarrow> sysret_ok 0)"

text \<open>
  A binding as \<open>QuicDataPathBindingCreate\<close> hands it to
  \<open>QuicSocketContextInitialize\<close> when only an IPv6 remote address is given, and what is
  looked at after the call: the status, the descriptors and the events.
\<close>

definition unbound_binding :: QUIC_DATAPATH_BINDING where
  "unbound_binding =
     \<lparr>ClientContext = Some 7, B_LocalAddress = zero_addr\<lparr>sa_family := AF_INET6\<rparr>,
      B_RemoteAddress = zero_addr, Connected = False, Shutdown = False, Mtu = QUIC_MAX_MTU,
      SocketContexts = [zero_socket_context\<lparr>SocketFd := INVALID_SOCKET_FD\<rparr>]\<rparr>"

definition init_view ::
  "QUIC_STATUS \<times> QUIC_DATAPATH_BINDING \<times> world \<Rightarrow> QUIC_STATUS \<times> int list \<times> event list" where
  "init_view x = (case x of (st, b, w) \<Rightarrow> (st, map SocketFd (SocketContexts b), events w))"

text \<open>
  What is left of a call of \<open>QuicDataPathBindingCreate\<close>: the status, \<open>*NewBinding\<close>,
  the binding, the receive blocks allocated at the addresses 300 to 309, the
  receive-block pools and the events.
\<close>

definition create_view ::
  "create_result \<Rightarrow> QUIC_STATUS \<times> ptr option \<times> QUIC_DATAPATH_BINDING option \<times> ptr list
     \<times> QUIC_POOL list \<times> event list" where
  "create_view r =
     (CR_Status r, CR_NewBinding r, CR_Binding r,
      filter (\<lambda>a. blocks (CR_Store r) a \<noteq> None) [300 ..< 310],
      map RecvBlockPool (ProcContexts (datapath (CR_Store r))), events (CR_World r))"

section \<open>Properties\<close>

lemma on_result_simps [simp]:
  "on_result f (Inl e) = Inl e" "on_result f (Inr y) = Inr (f y)"
  by (simp_all add: on_result_def)

subsection \<open>Send contexts\<close>

lemma replicate_update_same: "(replicate n x)[i := x] = replicate n x"
  by (induction n arbitrary: i) (auto split: nat.splits)

lemma unat_MaxSendBatchSize:
  "unat (MaxSendBatchSize (initialized_datapath kq a b c)) = QUIC_MAX_BATCH_SEND"
  by (simp add: initialized_datapath_def QUIC_MAX_BATCH_SEND_def)

lemma AllocSendDatagram_success:
  assumes "Owner sc < length (ProcContexts dp)"
      and "length (Buffers sc) = QUIC_MAX_BATCH_SEND"
      and "length (Iovs sc) = QUIC_MAX_BATCH_SEND"
      and "BufferCount sc < QUIC_MAX_BATCH_SEND"
      and "unat (MaxSendBatchSize dp) = QUIC_MAX_BATCH_SEND"
      and "SendBufferPool (ProcContexts dp ! Owner sc) = a # rest"
  shows "\<exists>sc' dp'. QuicDataPathBindingAllocSendDatagram dp sc len
                     = Inr (Some (BufferCount sc), sc', dp')
           \<and> BufferCount sc' = BufferCount sc + 1
           \<and> Buffers sc' ! BufferCount sc = \<lparr>Length = ucast len, Buffer = Some a\<rparr>
           \<and> Iovs sc' ! BufferCount sc = \<lparr>iov_base = Some a, iov_len = unat len\<rparr>
           \<and> SendBufferPool (ProcContexts dp' ! Owner sc) = rest"
  using assms
  by (simp add: QuicDataPathBindingAllocSendDatagram_def QuicPoolAlloc_def set_SendBufferPool_def
      Let_def)

lemma AllocSendDatagram_full:
  assumes "Owner sc < length (ProcContexts dp)"
      and "BufferCount sc = unat (MaxSendBatchSize dp)"
  shows "QuicDataPathBindingAllocSendDatagram dp sc len = Inr (None, sc, dp)"
  using assms by (simp add: QuicDataPathBindingAllocSendDatagram_def)

lemma IsSendContextFull_iff:
  "QuicDataPathBindingIsSendContextFull dp sc \<longleftrightarrow> BufferCount sc = unat (MaxSendBatchSize dp)"
  by (simp add: QuicDataPathBindingIsSendContextFull_def)

text \<open>
  Claim C6 says that \<open>QuicDataPathBindingAllocSendDatagram\<close> returns nil if and only if
  the batch is full or the send-buffer pool has nothing to give. The code does not do
  that: when the batch is not full and the pool gives nothing, the function returns
  the address of the next slot of \<open>Buffers\<close>, not nil; the slot is zeroed, its
  \<open>Buffer\<close> is NULL and \<open>BufferCount\<close> is unchanged.
\<close>

theorem AllocSendDatagram_pool_exhausted:
  assumes "Owner sc < length (ProcContexts dp)"
      and "length (Buffers sc) = QUIC_MAX_BATCH_SEND"
      and "length (Iovs sc) = QUIC_MAX_BATCH_SEND"
      and "BufferCount sc < QUIC_MAX_BATCH_SEND"
      and "unat (MaxSendBatchSize dp) = QUIC_MAX_BATCH_SEND"
      and "QuicPoolAlloc (SendBufferPool (ProcContexts dp ! Owner sc)) = (None, pool)"
  shows "\<exists>sc' dp'. QuicDataPathBindingAllocSendDatagram dp sc len
                     = Inr (Some (BufferCount sc), sc', dp')
           \<and> BufferCount sc' = BufferCount sc
           \<and> Buffers sc' ! BufferCount sc = zero_buffer"
  using assms
  by (simp add: QuicDataPathBindingAllocSendDatagram_def Let_def)

lemma AllocSendDatagram_exhausted_example:
  "QuicDataPathBindingAllocSendDatagram (initialized_datapath 3 [] [] []) zero_send_context 1200
     = Inr (Some 0, zero_send_context, initialized_datapath 3 [] [] [])"
  by (simp add: QuicDataPathBindingAllocSendDatagram_def initialized_datapath_def
      zero_send_context_def QUIC_MAX_BATCH_SEND_def QuicPoolAlloc_def set_SendBufferPool_def
      replicate_update_same Let_def)

theorem AllocSendDatagram_pool_exhausted_witness:
  "QuicDataPathBindingAllocSendDatagram (initialized_datapath 3 [] [] []) zero_send_context 1200
     = Inr (Some 0, zero_send_context, initialized_datapath 3 [] [] [])
   \<and> BufferCount zero_send_context \<noteq> unat (MaxSendBatchSize (initialized_datapath 3 [] [] []))
   \<and> QuicPoolAlloc (SendBufferPool (ProcContexts (initialized_datapath 3 [] [] []) ! 0)) = (None, [])"
  using AllocSendDatagram_pool_exhausted
          [of zero_send_context "initialized_datapath 3 [] [] []" "[]" 1200]
  unfolding AllocSendDatagram_exhausted_example
  by (simp add: unat_MaxSendBatchSize)
     (simp add: initialized_datapath_def zero_send_context_def QUIC_MAX_BATCH_SEND_def
        QuicPoolAlloc_def)

subsection \<open>The connected send path\<close>

lemma sendto_loop_shape:
  "sendto_loop K fd R i sc w = Inr (pend, st, sc', w') \<Longrightarrow>
     (\<exists>n. sc' = sc\<lparr>CurrentIndex := CurrentIndex sc + n\<rparr> \<and> (pend \<longrightarrow> st = QUIC_STATUS_SUCCESS \<and> i + n < BufferCount sc))
     \<and> (\<exists>new. events w' = events w @ new \<and> list_all (is_null_sendto fd) new)
     \<and> bytes w' = bytes w"
proof (induction K fd R i sc w rule: sendto_loop.induct)
  case (1 K fd R i sc w)
  show ?case
  proof (cases "i < BufferCount sc \<and> \<not> length (Buffers sc) \<le> i")
    case False
    with "1.prems" show ?thesis
      by (subst (asm) sendto_loop.simps) (auto split: if_splits intro: exI[of _ 0])
  next
    case True
    define b where "b = Buffers sc ! i"
    define w1 where "w1 = QuicTraceEvent (DatapathSendTo (Length b) R) w"
    define e where "e = Sys_sendto fd (Buffer b) (payload w1 b) (Length b) 0 None 0"
    define r where "r = K (events w1 @ [e])"
    define w2 where "w2 = emit e w1"
    have ev: "events w2 = events w @ [e]" "bytes w2 = bytes w"
      by (simp_all add: w2_def w1_def emit_def QuicTraceEvent_def)
    have ne: "is_null_sendto fd e" by (simp add: e_def)
    show ?thesis
    proof (cases "ret r < 0")
      case neg: True
      with True "1.prems" have "sc' = sc" "w' = w2" "pend \<longrightarrow> st = QUIC_STATUS_SUCCESS"
        by (subst (asm) sendto_loop.simps;
            auto simp: Let_def b_def w1_def e_def r_def w2_def split: if_splits)+
      with ev ne True show ?thesis
        by (auto intro: exI[of _ 0])
    next
      case pos: False
      with True "1.prems"
      have rec: "sendto_loop K fd R (i + 1) (sc\<lparr>CurrentIndex := CurrentIndex sc + 1\<rparr>) w2
                   = Inr (pend, st, sc', w')"
        by (subst (asm) sendto_loop.simps)
           (auto simp: Let_def b_def w1_def e_def r_def w2_def split: if_splits)
      have "(\<exists>n. sc' = sc\<lparr>CurrentIndex := CurrentIndex sc + 1\<rparr>\<lparr>CurrentIndex := CurrentIndex (sc\<lparr>CurrentIndex := CurrentIndex sc + 1\<rparr>) + n\<rparr>
              \<and> (pend \<longrightarrow> st = QUIC_STATUS_SUCCESS \<and> i + 1 + n < BufferCount (sc\<lparr>CurrentIndex := CurrentIndex sc + 1\<rparr>)))
            \<and> (\<exists>new. events w' = events w2 @ new \<and> list_all (is_null_sendto fd) new)
            \<and> bytes w' = bytes w2"
        using "1.IH"[OF _ _ b_def w1_def r_def[unfolded e_def] w2_def[unfolded e_def] _ rec] True pos
        by (simp add: r_def e_def)
      then obtain n new where
        "sc' = sc\<lparr>CurrentIndex := CurrentIndex sc + (Suc n)\<rparr>"
        "pend \<longrightarrow> st = QUIC_STATUS_SUCCESS \<and> i + Suc n < BufferCount sc"
        "events w' = events w2 @ new" "list_all (is_null_sendto fd) new" "bytes w' = bytes w2"
        by auto
      with ev ne show ?thesis
        by (intro conjI exI[of _ "Suc n"] exI[of _ "e # new"]) auto
    qed
  qed
qed

lemma sendto_loop_independent:
  "events w = events v \<Longrightarrow> bytes w = bytes v \<Longrightarrow>
     on_result loop_view (sendto_loop K fd R1 i sc w)
       = on_result loop_view (sendto_loop K fd R2 i sc v)"
proof (induction K fd R1 i sc w arbitrary: v rule: sendto_loop.induct)
  case (1 K fd R1 i sc w)
  show ?case
  proof (cases "i < BufferCount sc \<and> \<not> length (Buffers sc) \<le> i")
    case False
    with "1.prems" show ?thesis
      by (subst sendto_loop.simps, subst (2) sendto_loop.simps) (auto simp: loop_view_def)
  next
    case True
    define b where "b = Buffers sc ! i"
    define w1 where "w1 = QuicTraceEvent (DatapathSendTo (Length b) R1) w"
    define v1 where "v1 = QuicTraceEvent (DatapathSendTo (Length b) R2) v"
    define e where "e = Sys_sendto fd (Buffer b) (payload w1 b) (Length b) 0 None 0"
    define r where "r = K (events w1 @ [e])"
    define w2 where "w2 = emit e w1"
    define v2 where "v2 = emit e v1"
    have pay: "payload v1 b = payload w1 b"
      using "1.prems" by (simp add: payload_def w1_def v1_def QuicTraceEvent_def split: option.split)
    have ev1: "events v1 = events w1"
      using "1.prems" by (simp add: w1_def v1_def QuicTraceEvent_def)
    have same: "events w2 = events v2" "bytes w2 = bytes v2"
      using "1.prems" by (simp_all add: w2_def v2_def w1_def v1_def emit_def QuicTraceEvent_def)
    have L: "sendto_loop K fd R1 i sc w =
               (if ret r < 0 then
                  (if errno r = EAGAIN \<or> errno r = EWOULDBLOCK
                   then Inr (True, QUIC_STATUS_SUCCESS, sc, w2)
                   else Inr (False, QUIC_STATUS_ERRNO (errno r), sc, w2))
                else sendto_loop K fd R1 (i + 1) (sc\<lparr>CurrentIndex := CurrentIndex sc + 1\<rparr>) w2)"
      using True by (subst sendto_loop.simps) (simp add: Let_def b_def w1_def e_def r_def w2_def)
    have R: "sendto_loop K fd R2 i sc v =
               (if ret r < 0 then
                  (if errno r = EAGAIN \<or> errno r = EWOULDBLOCK
                   then Inr (True, QUIC_STATUS_SUCCESS, sc, v2)
                   else Inr (False, QUIC_STATUS_ERRNO (errno r), sc, v2))
                else sendto_loop K fd R2 (i + 1) (sc\<lparr>CurrentIndex := CurrentIndex sc + 1\<rparr>) v2)"
      using True pay ev1
      by (subst sendto_loop.simps) (simp add: Let_def b_def[symmetric] v1_def[symmetric] e_def r_def v2_def)
    show ?thesis
    proof (cases "ret r < 0")
      case True
      with same show ?thesis by (simp add: L R loop_view_def)
    next
      case False
      have "on_result loop_view
              (sendto_loop K fd R1 (i + 1) (sc\<lparr>CurrentIndex := CurrentIndex sc + 1\<rparr>) w2)
            = on_result loop_view
              (sendto_loop K fd R2 (i + 1) (sc\<lparr>CurrentIndex := CurrentIndex sc + 1\<rparr>) v2)"
        using "1.IH"[OF _ _ b_def w1_def r_def[unfolded e_def] w2_def[unfolded e_def] _ same] True False
        by (simp add: r_def e_def)
      with False show ?thesis by (simp add: L R)
    qed
  qed
qed

lemma Send_connected_unfold:
  "QuicDataPathBindingSend K Binding None R p sc dp w =
     (case SocketContexts Binding of
        [] \<Rightarrow> Inl OUT_OF_BOUNDS
      | sk # _ \<Rightarrow>
          (case sendto_loop K (SocketFd sk) R (CurrentIndex sc) sc w of
             Inl e \<Rightarrow> Inl e
           | Inr (pend, st, sc', w') \<Rightarrow>
               (if \<not> pend then
                  (case QuicDataPathBindingFreeSendContext dp p sc' of
                     Inl e \<Rightarrow> Inl e
                   | Inr dp' \<Rightarrow>
                       Inr \<lparr>SR_Status = st, SR_SendContext = None, SR_Datapath = dp',
                            SR_Binding = Binding, SR_World = w'\<rparr>)
                else
                  Inr \<lparr>SR_Status = st, SR_SendContext = Some sc', SR_Datapath = dp,
                       SR_Binding = Binding, SR_World = w'\<rparr>)))"
  by (simp add: QuicDataPathBindingSend_def split: list.split)

lemma Send_connected_events:
  assumes "QuicDataPathBindingSend K Binding None R p sc dp w = Inr r"
  shows "\<exists>new. events (SR_World r) = events w @ new
           \<and> list_all (is_null_sendto (SocketFd (hd (SocketContexts Binding)))) new"
proof -
  from assms obtain sk rest where sks: "SocketContexts Binding = sk # rest"
    by (cases "SocketContexts Binding") (auto simp: Send_connected_unfold)
  from assms sks obtain pend st sc1 w1 where
    loop: "sendto_loop K (SocketFd sk) R (CurrentIndex sc) sc w = Inr (pend, st, sc1, w1)"
    by (cases "sendto_loop K (SocketFd sk) R (CurrentIndex sc) sc w")
       (auto simp: Send_connected_unfold)
  from assms loop sks have "SR_World r = w1"
    by (auto simp: Send_connected_unfold split: if_splits sum.splits)
  with sendto_loop_shape[OF loop] sks show ?thesis by auto
qed

lemma Send_connected_independent:
  "on_result observable (QuicDataPathBindingSend K Binding None R1 p sc dp w)
     = on_result observable (QuicDataPathBindingSend K Binding None R2 p sc dp w)"
proof (cases "SocketContexts Binding")
  case Nil
  then show ?thesis by (simp add: Send_connected_unfold)
next
  case (Cons sk rest)
  have eq: "on_result loop_view (sendto_loop K (SocketFd sk) R1 (CurrentIndex sc) sc w)
              = on_result loop_view (sendto_loop K (SocketFd sk) R2 (CurrentIndex sc) sc w)"
    by (rule sendto_loop_independent) simp_all
  show ?thesis
  proof (cases "sendto_loop K (SocketFd sk) R1 (CurrentIndex sc) sc w")
    case (Inl e)
    with eq have "sendto_loop K (SocketFd sk) R2 (CurrentIndex sc) sc w = Inl e"
      by (cases "sendto_loop K (SocketFd sk) R2 (CurrentIndex sc) sc w") simp_all
    with Inl Cons show ?thesis by (simp add: Send_connected_unfold)
  next
    case (Inr x)
    obtain pend st sc1 w1 where x: "x = (pend, st, sc1, w1)" by (cases x) auto
    from eq Inr x obtain w2 where
      r2: "sendto_loop K (SocketFd sk) R2 (CurrentIndex sc) sc w = Inr (pend, st, sc1, w2)"
      and ev: "events w2 = events w1"
      by (cases "sendto_loop K (SocketFd sk) R2 (CurrentIndex sc) sc w")
         (auto simp: loop_view_def)
    from Inr x r2 ev Cons show ?thesis
      by (simp add: Send_connected_unfold observable_def split: sum.splits)
  qed
qed

lemma Send_blocked_example:
  "QuicDataPathBindingSend kernel_blocks_second (example_binding 5) None addr_v4 50 two_buffers
       (initialized_datapath 3 [] [] []) world0
     = Inr \<lparr>SR_Status = QUIC_STATUS_SUCCESS,
            SR_SendContext = Some (two_buffers\<lparr>CurrentIndex := 1\<rparr>),
            SR_Datapath = initialized_datapath 3 [] [] [],
            SR_Binding = example_binding 5,
            SR_World = world0
              \<lparr>events := [Sys_sendto 5 (Some 200) [1, 2, 3] 3 0 None 0,
                          Sys_sendto 5 (Some 201) [4, 5] 2 0 None 0],
               traced := [DatapathSendTo 3 addr_v4, DatapathSendTo 2 addr_v4]\<rparr>\<rparr>"
  by (simp add: QuicDataPathBindingSend_def example_binding_def sendto_loop.simps two_buffers_def
      Let_def QuicTraceEvent_def emit_def payload_def world0_def kernel_blocks_second_def
      sysret_ok_def sysret_failed_def)

lemma sendto_of_cong:
  "bytes w' = bytes w \<Longrightarrow> Buffers sc' = Buffers sc \<Longrightarrow> sendto_of fd w' sc' = sendto_of fd w sc"
  by (auto simp: sendto_of_def payload_def fun_eq_iff split: option.splits)

lemma payload_traced [simp]: "payload (w\<lparr>traced := x\<rparr>) b = payload w b"
  by (simp add: payload_def split: option.split)

lemma sendto_loop_blocks:
  assumes "i \<le> j" and "j < BufferCount sc" and "j < length (Buffers sc)"
      and "\<forall>k. i \<le> k \<and> k < j \<longrightarrow> 0 \<le> ret (K (events w @ map (sendto_of fd w sc) [i ..< Suc k]))"
      and "ret (K (events w @ map (sendto_of fd w sc) [i ..< Suc j])) < 0"
      and "errno (K (events w @ map (sendto_of fd w sc) [i ..< Suc j])) = EAGAIN
         \<or> errno (K (events w @ map (sendto_of fd w sc) [i ..< Suc j])) = EWOULDBLOCK"
  shows "sendto_loop K fd R i sc w
           = Inr (True, QUIC_STATUS_SUCCESS, sc\<lparr>CurrentIndex := CurrentIndex sc + (j - i)\<rparr>,
                  w\<lparr>events := events w @ map (sendto_of fd w sc) [i ..< Suc j],
                    traced := traced w
                      @ map (\<lambda>k. DatapathSendTo (Length (Buffers sc ! k)) R) [i ..< Suc j]\<rparr>)"
  using assms
proof (induction "j - i" arbitrary: i sc w)
  case 0
  then have ij: "i = j" by simp
  have up: "[j ..< Suc j] = [j]" by simp
  from 0 show ?case
    unfolding ij up
    by (subst sendto_loop.simps)
       (auto simp: Let_def sendto_of_def QuicTraceEvent_def emit_def)
next
  case (Suc d)
  then have lt: "i < j" by simp
  define w2 where "w2 = emit (sendto_of fd w sc i) (QuicTraceEvent (DatapathSendTo (Length (Buffers sc ! i)) R) w)"
  define sc2 where "sc2 = sc\<lparr>CurrentIndex := CurrentIndex sc + 1\<rparr>"
  have same: "sendto_of fd w2 sc2 = sendto_of fd w sc"
    by (rule sendto_of_cong) (simp_all add: w2_def sc2_def emit_def QuicTraceEvent_def)
  have up: "[i ..< Suc k] = i # [Suc i ..< Suc k]" if "i \<le> k" for k
    using that by (simp add: upt_conv_Cons)
  have ev2: "events w2 = events w @ [sendto_of fd w sc i]"
    by (simp add: w2_def emit_def QuicTraceEvent_def)
  have first: "0 \<le> ret (K (events w @ [sendto_of fd w sc i]))"
    using Suc.prems(4) lt by (auto dest!: spec[of _ i])
  have step: "sendto_loop K fd R i sc w = sendto_loop K fd R (i + 1) sc2 w2"
    using lt Suc.prems(2,3) first
    by (subst sendto_loop.simps)
       (simp add: Let_def sendto_of_def QuicTraceEvent_def emit_def w2_def sc2_def)
  have rec: "sendto_loop K fd R (Suc i) sc2 w2
           = Inr (True, QUIC_STATUS_SUCCESS, sc2\<lparr>CurrentIndex := CurrentIndex sc2 + (j - Suc i)\<rparr>,
                  w2\<lparr>events := events w2 @ map (sendto_of fd w2 sc2) [Suc i ..< Suc j],
                    traced := traced w2
                      @ map (\<lambda>k. DatapathSendTo (Length (Buffers sc2 ! k)) R) [Suc i ..< Suc j]\<rparr>)"
  proof (rule Suc.hyps(1))
    show "d = j - Suc i" using Suc.hyps(2) by simp
    show "Suc i \<le> j" using lt by simp
    show "j < BufferCount sc2" "j < length (Buffers sc2)" using Suc.prems by (simp_all add: sc2_def)
    show "\<forall>k. Suc i \<le> k \<and> k < j \<longrightarrow> 0 \<le> ret (K (events w2 @ map (sendto_of fd w2 sc2) [Suc i ..< Suc k]))"
      using Suc.prems(4) by (auto simp del: upt_Suc simp add: same ev2 up)
    show "ret (K (events w2 @ map (sendto_of fd w2 sc2) [Suc i ..< Suc j])) < 0"
      using Suc.prems(5) lt by (simp del: upt_Suc add: same ev2 up)
    show "errno (K (events w2 @ map (sendto_of fd w2 sc2) [Suc i ..< Suc j])) = EAGAIN
         \<or> errno (K (events w2 @ map (sendto_of fd w2 sc2) [Suc i ..< Suc j])) = EWOULDBLOCK"
      using Suc.prems(6) lt by (simp del: upt_Suc add: same ev2 up)
  qed
  show ?case
    using lt unfolding step
    by (simp del: upt_Suc add: rec same ev2 up)
       (simp add: w2_def sc2_def emit_def QuicTraceEvent_def)
qed

lemma blocks_at_example: "blocks_at kernel_blocks_second 5 world0 two_buffers 1"
  by (simp add: blocks_at_def sendtos_def two_buffers_def world0_def kernel_blocks_second_def
      sysret_ok_def sysret_failed_def)

text \<open>
  Claim C2, as amended: for every send on the connected path
  (\<open>QuicDataPathBindingSend\<close> with \<open>LocalAddress == NULL\<close>), if a \<open>sendto\<close> fails
  with \<open>errno\<close> \<open>EWOULDBLOCK\<close> or \<open>EAGAIN\<close> then \<open>CurrentIndex\<close> is left at
  the index of the buffer that blocked, the context is not freed (the datapath and its
  pools are as before), and the call returns success. The \<open>Pending\<close> flag of the
  context and the binding with the pending list and \<open>SendWaiting\<close> of its socket
  contexts are what they were, and the calls that went to the kernel are the
  \<open>sendto\<close> calls for the buffers up to the one that blocked.
\<close>

theorem Send_blocked_leaves_context:
  assumes "SocketContexts Binding = sk # rest"
      and "blocks_at K (SocketFd sk) w sc j"
  shows "QuicDataPathBindingSend K Binding None R p sc dp w
           = Inr \<lparr>SR_Status = QUIC_STATUS_SUCCESS,
                  SR_SendContext = Some (sc\<lparr>CurrentIndex := j\<rparr>),
                  SR_Datapath = dp,
                  SR_Binding = Binding,
                  SR_World = w
                    \<lparr>events := events w @ sendtos (SocketFd sk) w sc j,
                     traced := traced w
                       @ map (\<lambda>k. DatapathSendTo (Length (Buffers sc ! k)) R)
                           [CurrentIndex sc ..< Suc j]\<rparr>\<rparr>"
proof -
  from assms(2) have
    "sendto_loop K (SocketFd sk) R (CurrentIndex sc) sc w
       = Inr (True, QUIC_STATUS_SUCCESS,
              sc\<lparr>CurrentIndex := CurrentIndex sc + (j - CurrentIndex sc)\<rparr>,
              w\<lparr>events := events w
                   @ map (sendto_of (SocketFd sk) w sc) [CurrentIndex sc ..< Suc j],
                traced := traced w
                   @ map (\<lambda>k. DatapathSendTo (Length (Buffers sc ! k)) R)
                       [CurrentIndex sc ..< Suc j]\<rparr>)"
    by (intro sendto_loop_blocks) (auto simp: blocks_at_def sendtos_def list_all_iff)
  moreover from assms(2) have "CurrentIndex sc + (j - CurrentIndex sc) = j"
    by (simp add: blocks_at_def)
  ultimately show ?thesis
    using assms(1) by (simp add: Send_connected_unfold sendtos_def)
qed

theorem Send_blocked_leaves_context_witness:
  "blocks_at kernel_blocks_second 5 world0 two_buffers 1
   \<and> QuicDataPathBindingSend kernel_blocks_second (example_binding 5) None addr_v4 50
       two_buffers (initialized_datapath 3 [] [] []) world0
     = Inr \<lparr>SR_Status = QUIC_STATUS_SUCCESS,
            SR_SendContext = Some (two_buffers\<lparr>CurrentIndex := 1\<rparr>),
            SR_Datapath = initialized_datapath 3 [] [] [],
            SR_Binding = example_binding 5,
            SR_World = world0
              \<lparr>events := [Sys_sendto 5 (Some 200) [1, 2, 3] 3 0 None 0,
                          Sys_sendto 5 (Some 201) [4, 5] 2 0 None 0],
               traced := [DatapathSendTo 3 addr_v4, DatapathSendTo 2 addr_v4]\<rparr>\<rparr>"
proof -
  have sks: "SocketContexts (example_binding 5) = [zero_socket_context\<lparr>SocketFd := 5\<rparr>]"
    by (simp add: example_binding_def)
  have fd: "SocketFd (zero_socket_context\<lparr>SocketFd := 5\<rparr>) = 5" by simp
  have calls: "sendtos 5 world0 two_buffers 1
                 = [Sys_sendto 5 (Some 200) [1, 2, 3] 3 0 None 0,
                    Sys_sendto 5 (Some 201) [4, 5] 2 0 None 0]"
    by (simp add: sendtos_def sendto_of_def two_buffers_def world0_def payload_def)
  have logged: "map (\<lambda>k. DatapathSendTo (Length (Buffers two_buffers ! k)) addr_v4)
                  [CurrentIndex two_buffers ..< Suc 1]
                 = [DatapathSendTo 3 addr_v4, DatapathSendTo 2 addr_v4]"
    by (simp add: two_buffers_def)
  have start: "events world0 = []" "traced world0 = []"
    by (simp_all add: world0_def)
  from Send_blocked_leaves_context
         [OF sks, unfolded fd, OF blocks_at_example, of addr_v4 50 "initialized_datapath 3 [] [] []"]
  have run: "QuicDataPathBindingSend kernel_blocks_second (example_binding 5) None addr_v4 50
       two_buffers (initialized_datapath 3 [] [] []) world0
     = Inr \<lparr>SR_Status = QUIC_STATUS_SUCCESS,
            SR_SendContext = Some (two_buffers\<lparr>CurrentIndex := 1\<rparr>),
            SR_Datapath = initialized_datapath 3 [] [] [],
            SR_Binding = example_binding 5,
            SR_World = world0
              \<lparr>events := events world0 @ sendtos 5 world0 two_buffers 1,
               traced := traced world0
                 @ map (\<lambda>k. DatapathSendTo (Length (Buffers two_buffers ! k)) addr_v4)
                     [CurrentIndex two_buffers ..< Suc 1]\<rparr>\<rparr>" .
  have "QuicDataPathBindingSend kernel_blocks_second (example_binding 5) None addr_v4 50
       two_buffers (initialized_datapath 3 [] [] []) world0
     = Inr \<lparr>SR_Status = QUIC_STATUS_SUCCESS,
            SR_SendContext = Some (two_buffers\<lparr>CurrentIndex := 1\<rparr>),
            SR_Datapath = initialized_datapath 3 [] [] [],
            SR_Binding = example_binding 5,
            SR_World = world0
              \<lparr>events := [Sys_sendto 5 (Some 200) [1, 2, 3] 3 0 None 0,
                          Sys_sendto 5 (Some 201) [4, 5] 2 0 None 0],
               traced := [DatapathSendTo 3 addr_v4, DatapathSendTo 2 addr_v4]\<rparr>\<rparr>"
    unfolding run calls logged start by simp
  with blocks_at_example show ?thesis by (rule conjI)
qed

text \<open>
  Claim C2 as it is stated fails: when the kernel takes the first of two buffers and
  answers the \<open>sendto\<close> for the second with \<open>EWOULDBLOCK\<close>, the call leaves the
  send context with \<open>Pending\<close> false, the pending list of the socket context empty
  and \<open>SendWaiting\<close> false.
\<close>

theorem Send_blocked_is_not_queued:
  "blocks_at kernel_blocks_second 5 world0 two_buffers 1
   \<and> on_result pending_view
       (QuicDataPathBindingSend kernel_blocks_second (example_binding 5) None addr_v4 50
          two_buffers (initialized_datapath 3 [] [] []) world0)
     = Inr (Some False, [[]], [False])"
proof -
  have "on_result pending_view
       (QuicDataPathBindingSend kernel_blocks_second (example_binding 5) None addr_v4 50
          two_buffers (initialized_datapath 3 [] [] []) world0)
     = Inr (Some False, [[]], [False])"
    unfolding Send_blocked_example
    by (simp add: pending_view_def example_binding_def zero_socket_context_def two_buffers_def)
  with blocks_at_example show ?thesis by (rule conjI)
qed

lemma Send_completed_example:
  "QuicDataPathBindingSend kernel_ok (example_binding 5) None R 50 two_buffers
       (initialized_datapath 3 [] [] []) world0
     = Inr \<lparr>SR_Status = QUIC_STATUS_SUCCESS,
            SR_SendContext = None,
            SR_Datapath = initialized_datapath 3 [] [201, 200] [50],
            SR_Binding = example_binding 5,
            SR_World = world0
              \<lparr>events := [Sys_sendto 5 (Some 200) [1, 2, 3] 3 0 None 0,
                          Sys_sendto 5 (Some 201) [4, 5] 2 0 None 0],
               traced := [DatapathSendTo 3 R, DatapathSendTo 2 R]\<rparr>\<rparr>"
  by (simp add: QuicDataPathBindingSend_def example_binding_def sendto_loop.simps two_buffers_def
      Let_def QuicTraceEvent_def emit_def payload_def world0_def kernel_ok_def
      sysret_ok_def QuicDataPathBindingFreeSendContext_def initialized_datapath_def
      QuicPoolFree_def set_SendBufferPool_def set_SendContextPool_def)

text \<open>
  Claim C10: on the connected path (\<open>LocalAddress = NULL\<close>) the argument
  \<open>RemoteAddress\<close> does not reach the kernel. Two calls that differ in it alone return
  the same status, context, datapath and binding and leave the same events, and every
  event the call adds is a \<open>sendto\<close> on the descriptor of \<open>SocketContexts[0]\<close> with
  flags 0 and a NULL destination.
\<close>

theorem connected_send_ignores_RemoteAddress:
  "on_result observable (QuicDataPathBindingSend K Binding None R1 p sc dp w)
     = on_result observable (QuicDataPathBindingSend K Binding None R2 p sc dp w)
   \<and> (\<forall>r. QuicDataPathBindingSend K Binding None R1 p sc dp w = Inr r \<longrightarrow>
         (\<exists>new. events (SR_World r) = events w @ new
            \<and> list_all (is_null_sendto (SocketFd (hd (SocketContexts Binding)))) new))"
  using Send_connected_independent Send_connected_events by blast

theorem connected_send_ignores_RemoteAddress_witness:
  "on_result observable
     (QuicDataPathBindingSend kernel_ok (example_binding 5) None addr_v4 50 two_buffers
        (initialized_datapath 3 [] [] []) world0)
   = on_result observable
     (QuicDataPathBindingSend kernel_ok (example_binding 5) None addr_v6 50 two_buffers
        (initialized_datapath 3 [] [] []) world0)
   \<and> on_result (\<lambda>r. events (SR_World r))
       (QuicDataPathBindingSend kernel_ok (example_binding 5) None addr_v4 50 two_buffers
          (initialized_datapath 3 [] [] []) world0)
     = Inr [Sys_sendto 5 (Some 200) [1, 2, 3] 3 0 None 0,
            Sys_sendto 5 (Some 201) [4, 5] 2 0 None 0]
   \<and> addr_v4 \<noteq> addr_v6"
  using connected_send_ignores_RemoteAddress
          [of kernel_ok "example_binding 5" addr_v4 50 two_buffers
              "initialized_datapath 3 [] [] []" world0 addr_v6]
  unfolding Send_completed_example
  by (simp add: world0_def addr_v4_def addr_v6_def AF_INET_def AF_INET6_def)

text \<open>
  The path of \<open>QuicDataPathBindingSend\<close> with a local address, which no function of
  the file calls, is the one that issues the single \<open>sendmsg\<close> with the I/O vector
  and the packet-info record.
\<close>

lemma fill_iovs_length: "length (fill_iovs bs vs) = length vs"
  by (induction bs vs rule: fill_iovs.induct) simp_all

lemma sendmsg_path_events:
  assumes "sendmsg_path K fd la R sc w = Inr (pend, st, sc', w')"
  shows "\<exists>m. events w' = events w @ [Sys_sendmsg fd m 0]
           \<and> msg_iovlen m = BufferCount sc
           \<and> length (msg_iov m) = BufferCount sc
           \<and> msg_control m = build_cmsg la"
  using assms
  by (auto simp: sendmsg_path_def Let_def emit_def QuicTraceEvent_def fill_iovs_length
      split: if_splits)


lemma Send_with_local_address_events:
  assumes "QuicDataPathBindingSend K Binding (Some L) R p sc dp w = Inr r"
  shows "\<exists>m. events (SR_World r)
               = events w @ [Sys_sendmsg (SocketFd (hd (SocketContexts Binding))) m 0]
           \<and> msg_iovlen m = BufferCount sc
           \<and> length (msg_iov m) = BufferCount sc
           \<and> msg_control m = build_cmsg L"
proof -
  from assms obtain sk rest where sks: "SocketContexts Binding = sk # rest"
    by (cases "SocketContexts Binding") (auto simp: QuicDataPathBindingSend_def)
  from assms sks obtain pend st sc1 w1 where
    path: "sendmsg_path K (SocketFd sk) L R sc w = Inr (pend, st, sc1, w1)"
    by (cases "sendmsg_path K (SocketFd sk) L R sc w") (auto simp: QuicDataPathBindingSend_def)
  from assms path sks have "SR_World r = w1"
    by (auto simp: QuicDataPathBindingSend_def split: if_splits sum.splits)
  with sendmsg_path_events[OF path] sks show ?thesis by simp
qed

lemma Send_with_local_address_example:
  "on_result (\<lambda>r. events (SR_World r))
     (QuicDataPathBindingSend kernel_ok (example_binding 5) (Some addr_v4) addr_v4 50
        two_buffers (initialized_datapath 3 [] [] []) world0)
   = Inr [Sys_sendmsg 5
            \<lparr>msg_name = zero_addr,
             msg_iov = [\<lparr>iov_base = Some 200, iov_len = 3\<rparr>, \<lparr>iov_base = Some 201, iov_len = 2\<rparr>],
             msg_iovlen = 2,
             msg_control =
               \<lparr>sent_level = IPPROTO_IP, sent_type = IP_PKTINFO,
                sent_data = In_pktinfo
                  \<lparr>ipi_ifindex = 0, ipi_spec_dst = 0, ipi_addr = 0x7F000001\<rparr>\<rparr>,
             msg_flags = 0\<rparr> 0]"
  by (simp add: QuicDataPathBindingSend_def example_binding_def sendmsg_path_def two_buffers_def
      Let_def QuicTraceEvent_def emit_def world0_def kernel_ok_def build_cmsg_def addr_v4_def
      sysret_ok_def QuicDataPathBindingFreeSendContext_def initialized_datapath_def
      QuicPoolFree_def set_SendBufferPool_def set_SendContextPool_def zero_socket_context_def)

text \<open>
  Claim C1 says that \<open>QuicDataPathBindingSendFromTo\<close> sends the batch with one
  \<open>sendmsg\<close> and returns. The code does not: for every binding, addresses and send
  context the call stops the process at \<open>QUIC_FRE_ASSERT(FALSE)\<close>, before any system
  call. What the claim describes is what \<open>QuicDataPathBindingSend\<close> does when it is
  given the local address: whenever that call returns, it has added one \<open>sendmsg\<close>
  on the descriptor of \<open>SocketContexts[0]\<close>, with one I/O vector entry per buffer
  and the \<open>IP_PKTINFO\<close> or \<open>IPV6_PKTINFO\<close> record of the local address.
\<close>

theorem SendFromTo_stops_the_process:
  "QuicDataPathBindingSendFromTo K Binding L R p sc dp w = Inl (FRE_ASSERT ''FALSE'')
   \<and> (\<forall>r. QuicDataPathBindingSend K Binding (Some L) R p sc dp w = Inr r \<longrightarrow>
         (\<exists>m. events (SR_World r)
                 = events w @ [Sys_sendmsg (SocketFd (hd (SocketContexts Binding))) m 0]
             \<and> msg_iovlen m = BufferCount sc
             \<and> length (msg_iov m) = BufferCount sc
             \<and> msg_control m = build_cmsg L))"
  using Send_with_local_address_events
  by (simp add: QuicDataPathBindingSendFromTo_def)

theorem SendFromTo_stops_the_process_witness:
  "QuicDataPathBindingSendFromTo kernel_ok (example_binding 5) addr_v4 addr_v4 50
        two_buffers (initialized_datapath 3 [] [] []) world0
     = Inl (FRE_ASSERT ''FALSE'')
   \<and> on_result (\<lambda>r. events (SR_World r))
       (QuicDataPathBindingSend kernel_ok (example_binding 5) (Some addr_v4) addr_v4 50
          two_buffers (initialized_datapath 3 [] [] []) world0)
     = Inr [Sys_sendmsg 5
              \<lparr>msg_name = zero_addr,
               msg_iov = [\<lparr>iov_base = Some 200, iov_len = 3\<rparr>,
                          \<lparr>iov_base = Some 201, iov_len = 2\<rparr>],
               msg_iovlen = 2,
               msg_control = build_cmsg addr_v4,
               msg_flags = 0\<rparr> 0]"
  using SendFromTo_stops_the_process
          [of kernel_ok "example_binding 5" addr_v4 addr_v4 50 two_buffers
              "initialized_datapath 3 [] [] []" world0]
        Send_with_local_address_example
  by (simp add: build_cmsg_def addr_v4_def)

subsection \<open>Returning receive blocks\<close>

lemma recv_chain_unique:
  "recv_chain h c as \<Longrightarrow> recv_chain h c bs \<Longrightarrow> as = bs"
proof (induction as arbitrary: c bs)
  case Nil
  then show ?case by (cases bs) auto
next
  case (Cons a as)
  then show ?case by (cases bs) (auto split: option.splits)
qed

lemma recv_chain_suffix:
  "recv_chain h c (xs @ ys) \<Longrightarrow> \<exists>c'. recv_chain h c' ys"
  by (induction xs arbitrary: c) (auto split: option.splits)

lemma recv_chain_distinct:
  "recv_chain h c as \<Longrightarrow> distinct as"
proof (induction as arbitrary: c)
  case Nil
  then show ?case by simp
next
  case (Cons a as)
  then obtain blk where blk: "h a = Some blk" and tl: "recv_chain h (Next (RecvPacket blk)) as"
    and c: "c = Some a"
    by (auto split: option.splits)
  have "a \<notin> set as"
  proof
    assume "a \<in> set as"
    then obtain xs ys where as: "as = xs @ a # ys" by (auto simp: in_set_conv_decomp)
    with tl obtain c' where "recv_chain h c' (a # ys)"
      using recv_chain_suffix by blast
    then have "recv_chain h (Some a) (a # ys)" by auto
    moreover from blk tl have "recv_chain h (Some a) (a # as)" by simp
    ultimately have "a # ys = a # as" by (rule recv_chain_unique)
    with as show False by (auto dest: arg_cong[where f = length])
  qed
  with Cons.IH[OF tl] show ?case by simp
qed

lemma recv_chain_update:
  "a \<notin> set as \<Longrightarrow> recv_chain (h(a := x)) c as = recv_chain h c as"
  by (induction as arbitrary: c) (auto split: option.splits)

lemma free_recv_block_simps:
  "blocks (free_recv_block i a s) = (blocks s)(a := None)"
  "length (ProcContexts (datapath (free_recv_block i a s))) = length (ProcContexts (datapath s))"
  by (simp_all add: free_recv_block_def set_RecvBlockPool_def)

lemma free_recv_block_pool:
  "i < length (ProcContexts (datapath s)) \<Longrightarrow> j < length (ProcContexts (datapath s)) \<Longrightarrow>
     RecvBlockPool (ProcContexts (datapath (free_recv_block i a s)) ! j)
       = (if j = i then a # RecvBlockPool (ProcContexts (datapath s) ! j)
          else RecvBlockPool (ProcContexts (datapath s) ! j))"
  by (simp add: free_recv_block_def set_RecvBlockPool_def QuicPoolFree_def nth_list_update)

lemma ReturnRecvDatagrams_chain:
  "recv_chain (blocks s) c as \<Longrightarrow> list_all (owned s) as \<Longrightarrow>
     \<exists>s'. QuicDataPathBindingReturnRecvDatagrams c s = Some (Inr s')
        \<and> blocks s' = (\<lambda>a. if a \<in> set as then None else blocks s a)
        \<and> length (ProcContexts (datapath s')) = length (ProcContexts (datapath s))
        \<and> (\<forall>i < length (ProcContexts (datapath s)).
              RecvBlockPool (ProcContexts (datapath s') ! i)
                = returned_to s as i @ RecvBlockPool (ProcContexts (datapath s) ! i))"
proof (induction as arbitrary: c s)
  case Nil
  then show ?case
    by (subst QuicDataPathBindingReturnRecvDatagrams.simps) (simp add: returned_to_def)
next
  case (Cons a as)
  from Cons.prems(1) obtain blk where c: "c = Some a" and blk: "blocks s a = Some blk"
    and tl: "recv_chain (blocks s) (Next (RecvPacket blk)) as"
    by (auto split: option.splits)
  from Cons.prems(2) blk obtain i where i: "OwningPool blk = Some i"
    "i < length (ProcContexts (datapath s))"
    by (auto simp: owned_def pool_of_def split: option.splits)
  from recv_chain_distinct[OF Cons.prems(1)] have notin: "a \<notin> set as" by simp
  let ?s1 = "free_recv_block i a s"
  have chain1: "recv_chain (blocks ?s1) (Next (RecvPacket blk)) as"
    using tl notin by (simp add: free_recv_block_simps recv_chain_update)
  have pool_same: "\<And>b. b \<noteq> a \<Longrightarrow> pool_of (blocks ?s1) b = pool_of (blocks s) b"
    by (simp add: free_recv_block_simps pool_of_def)
  have owned1: "list_all (owned ?s1) as"
    unfolding list_all_iff
  proof
    fix b assume b: "b \<in> set as"
    with notin have "b \<noteq> a" by auto
    moreover from b Cons.prems(2) have "owned s b" by (simp add: list_all_iff)
    ultimately show "owned ?s1 b"
      by (simp add: owned_def pool_same free_recv_block_simps(2) split: option.splits)
  qed
  from Cons.IH[OF chain1 owned1] obtain s' where
    ret: "QuicDataPathBindingReturnRecvDatagrams (Next (RecvPacket blk)) ?s1 = Some (Inr s')"
    and bl: "blocks s' = (\<lambda>b. if b \<in> set as then None else blocks ?s1 b)"
    and len: "length (ProcContexts (datapath s')) = length (ProcContexts (datapath ?s1))"
    and pools: "\<forall>j < length (ProcContexts (datapath ?s1)).
              RecvBlockPool (ProcContexts (datapath s') ! j)
                = returned_to ?s1 as j @ RecvBlockPool (ProcContexts (datapath ?s1) ! j)"
    by blast
  have step: "QuicDataPathBindingReturnRecvDatagrams c s = Some (Inr s')"
    using c blk i ret by (subst QuicDataPathBindingReturnRecvDatagrams.simps) simp
  have filt: "\<And>j. returned_to ?s1 as j = returned_to s as j"
  proof -
    fix j
    have "\<And>b. b \<in> set as \<Longrightarrow> pool_of (blocks ?s1) b = pool_of (blocks s) b"
      using notin pool_same by metis
    then have "filter (\<lambda>b. pool_of (blocks ?s1) b = Some j) as
                 = filter (\<lambda>b. pool_of (blocks s) b = Some j) as"
      by (intro filter_cong) simp_all
    then show "returned_to ?s1 as j = returned_to s as j"
      by (simp add: returned_to_def)
  qed
  have head: "\<And>j. returned_to s (a # as) j
                 = returned_to s as j @ (if j = i then [a] else [])"
    using blk i by (simp add: returned_to_def pool_of_def)
  show ?case
  proof (intro exI conjI allI impI)
    show "QuicDataPathBindingReturnRecvDatagrams c s = Some (Inr s')" by (rule step)
    show "blocks s' = (\<lambda>b. if b \<in> set (a # as) then None else blocks s b)"
      by (auto simp: bl free_recv_block_simps)
    show "length (ProcContexts (datapath s')) = length (ProcContexts (datapath s))"
      by (simp add: len free_recv_block_simps)
  next
    fix j assume j: "j < length (ProcContexts (datapath s))"
    then have "RecvBlockPool (ProcContexts (datapath s') ! j)
                = returned_to ?s1 as j @ RecvBlockPool (ProcContexts (datapath ?s1) ! j)"
      using pools by (simp add: free_recv_block_simps)
    then show "RecvBlockPool (ProcContexts (datapath s') ! j)
                = returned_to s (a # as) j @ RecvBlockPool (ProcContexts (datapath s) ! j)"
      using i j by (simp add: filt head free_recv_block_pool)
  qed
qed

lemma AllocRecvBlock_records_its_pool:
  assumes "QuicDataPathAllocRecvBlock i s = Inr (Some a, s1)"
  shows "pool_of (blocks s1) a = Some i
       \<and> i < length (ProcContexts (datapath s1))
       \<and> RecvBlockPool (ProcContexts (datapath s) ! i)
           = a # RecvBlockPool (ProcContexts (datapath s1) ! i)
       \<and> recv_chain (blocks s1) (Some a) [a]"
  using assms
  by (auto simp: QuicDataPathAllocRecvBlock_def QuicPoolAlloc_def set_RecvBlockPool_def
      pool_of_def zero_recv_block_def split: if_splits list.splits)

lemma alloc_return_round_trip:
  assumes "QuicDataPathAllocRecvBlock i s = Inr (Some a, s1)" and "blocks s a = None"
  shows "QuicDataPathBindingReturnRecvDatagrams (Some a) s1 = Some (Inr s)"
proof -
  from assms(1) have i: "i < length (ProcContexts (datapath s))"
    and pool: "RecvBlockPool (ProcContexts (datapath s) ! i)
                 = a # RecvBlockPool (ProcContexts (datapath s1) ! i)"
    and s1: "s1 = s\<lparr>blocks := (blocks s)
                       (a \<mapsto> zero_recv_block
                          \<lparr>OwningPool := Some i,
                           RecvPacket := (RecvPacket zero_recv_block)
                             \<lparr>DG_Buffer := Some a, Allocated := True\<rparr>\<rparr>),
                    datapath := set_RecvBlockPool i
                       (RecvBlockPool (ProcContexts (datapath s1) ! i)) (datapath s)\<rparr>"
    by (auto simp: QuicDataPathAllocRecvBlock_def QuicPoolAlloc_def set_RecvBlockPool_def
        split: if_splits list.splits)
  have undo: "free_recv_block i a s1 = s"
    using assms(2) i pool
    by (subst s1, subst s1)
       (simp add: free_recv_block_def set_RecvBlockPool_def QuicPoolFree_def list_update_same_conv
          fun_upd_idem)
  from AllocRecvBlock_records_its_pool[OF assms(1)]
  obtain B where B: "blocks s1 a = Some B" "OwningPool B = Some i"
      "Next (RecvPacket B) = None"
    and len: "\<not> length (ProcContexts (datapath s1)) \<le> i"
    by (auto simp: pool_of_def split: option.splits)
  have "QuicDataPathBindingReturnRecvDatagrams (Some a) s1
          = QuicDataPathBindingReturnRecvDatagrams None (free_recv_block i a s1)"
    using B len by (subst QuicDataPathBindingReturnRecvDatagrams.simps) simp
  also have "\<dots> = Some (Inr (free_recv_block i a s1))"
    by (subst QuicDataPathBindingReturnRecvDatagrams.simps) simp
  finally show ?thesis by (simp add: undo)
qed

text \<open>
  Claim C9: for every chain of received datagrams that ends in NULL (the empty chain
  included) whose blocks carry a pool of the datapath in \<open>OwningPool\<close>,
  \<open>QuicDataPathBindingReturnRecvDatagrams\<close> returns, every block of the chain has left
  the store, and each receive-block pool has gained exactly the blocks of the chain that
  name it in \<open>OwningPool\<close>, in the order of the chain, and nothing else. The pool a
  block names is the pool \<open>QuicDataPathAllocRecvBlock\<close> took it from, so returning a
  freshly allocated block restores the store as it was before the allocation.
\<close>

theorem ReturnRecvDatagrams_round_trip:
  "(recv_chain (blocks s) chain as \<and> list_all (owned s) as \<longrightarrow>
      (\<exists>s'. QuicDataPathBindingReturnRecvDatagrams chain s = Some (Inr s')
          \<and> blocks s' = (\<lambda>a. if a \<in> set as then None else blocks s a)
          \<and> length (ProcContexts (datapath s')) = length (ProcContexts (datapath s))
          \<and> (\<forall>i < length (ProcContexts (datapath s)).
                RecvBlockPool (ProcContexts (datapath s') ! i)
                  = returned_to s as i @ RecvBlockPool (ProcContexts (datapath s) ! i))))
   \<and> (\<forall>i a s1. QuicDataPathAllocRecvBlock i s = Inr (Some a, s1) \<longrightarrow>
          pool_of (blocks s1) a = Some i
        \<and> RecvBlockPool (ProcContexts (datapath s) ! i)
            = a # RecvBlockPool (ProcContexts (datapath s1) ! i)
        \<and> (blocks s a = None \<longrightarrow>
              QuicDataPathBindingReturnRecvDatagrams (Some a) s1 = Some (Inr s)))"
  using ReturnRecvDatagrams_chain AllocRecvBlock_records_its_pool alloc_return_round_trip
  by blast

theorem ReturnRecvDatagrams_round_trip_witness:
  "\<exists>s'. QuicDataPathBindingReturnRecvDatagrams (Some 300) two_pool_store = Some (Inr s')
      \<and> blocks s' 300 = None \<and> blocks s' 301 = None
      \<and> RecvBlockPool (ProcContexts (datapath s') ! 0) = [301, 302]
      \<and> RecvBlockPool (ProcContexts (datapath s') ! 1) = [300]"
proof -
  have chain: "recv_chain (blocks two_pool_store) (Some 300) [300, 301]"
    by (simp add: two_pool_store_def recv_block_def zero_recv_block_def)
  have own: "list_all (owned two_pool_store) [300, 301]"
    by (simp add: owned_def pool_of_def two_pool_store_def recv_block_def zero_recv_block_def)
  have r0: "returned_to two_pool_store [300, 301] 0 = [301]"
    and r1: "returned_to two_pool_store [300, 301] 1 = [300]"
    by (simp_all add: returned_to_def pool_of_def two_pool_store_def recv_block_def
        zero_recv_block_def)
  have len: "length (ProcContexts (datapath two_pool_store)) = 2"
    and p0: "RecvBlockPool (ProcContexts (datapath two_pool_store) ! 0) = [302]"
    and p1: "RecvBlockPool (ProcContexts (datapath two_pool_store) ! 1) = []"
    by (simp_all add: two_pool_store_def)
  from ReturnRecvDatagrams_round_trip [of two_pool_store "Some 300" "[300, 301]"] chain own
  obtain s' where
    "QuicDataPathBindingReturnRecvDatagrams (Some 300) two_pool_store = Some (Inr s')"
    "blocks s' = (\<lambda>a. if a \<in> set [300, 301] then None else blocks two_pool_store a)"
    "\<forall>i < 2. RecvBlockPool (ProcContexts (datapath s') ! i)
        = returned_to two_pool_store [300, 301] i
          @ RecvBlockPool (ProcContexts (datapath two_pool_store) ! i)"
    unfolding len by blast
  then show ?thesis
    using r0 r1 p0 p1 by (intro exI[of _ s']) simp
qed

text \<open>
  Nothing else writes \<open>OwningPool\<close>: arming a receive and completing one leave the
  pool of every allocated block as it is.
\<close>

lemma PrepareReceive_keeps_OwningPool:
  assumes "QuicSocketContextPrepareReceive sk s = Inr (st, sk', s')"
      and "blocks s a = Some blk"
      and "a \<notin> set (RecvBlockPool (ProcContexts (datapath s) ! 0))"
  shows "pool_of (blocks s') a = pool_of (blocks s) a"
  using assms
  by (auto simp: QuicSocketContextPrepareReceive_def QuicDataPathAllocRecvBlock_def
      QuicPoolAlloc_def pool_of_def
      split: option.splits sum.splits prod.splits if_splits list.splits)

lemma RecvComplete_keeps_OwningPool:
  assumes "QuicSocketContextRecvComplete conv H B sk pc n s = Inr r"
  shows "pool_of (blocks (RR_Delivered r)) = pool_of (blocks s)"
proof
  fix x
  from assms show "pool_of (blocks (RR_Delivered r)) x = pool_of (blocks s) x"
    unfolding QuicSocketContextRecvComplete_def rearm_receive_def
    by (auto simp: pool_of_def Let_def
        split: option.splits sum.splits prod.splits if_splits)
qed

subsection \<open>Receive completion\<close>

lemma walk_cmsgs_none:
  "\<not> list_ex is_pktinfo cs \<Longrightarrow> walk_cmsgs conv port cs la = (False, la)"
  by (induction cs) (auto simp: is_pktinfo_def)


lemma walk_cmsgs_first:
  "list_ex is_pktinfo cs \<Longrightarrow>
     \<exists>pre c post. cs = pre @ c # post \<and> \<not> list_ex is_pktinfo pre \<and> is_pktinfo c
        \<and> walk_cmsgs conv port cs la = walk_cmsgs conv port [c] la"
proof (induction cs)
  case Nil
  then show ?case by simp
next
  case (Cons x xs)
  show ?case
  proof (cases "is_pktinfo x")
    case True
    then have "walk_cmsgs conv port (x # xs) la = walk_cmsgs conv port [x] la"
      by (auto simp: is_pktinfo_def)
    with True show ?thesis by (intro exI[of _ "[]"] exI[of _ x] exI[of _ xs]) simp
  next
    case False
    with Cons.prems have "list_ex is_pktinfo xs" by simp
    from Cons.IH[OF this] obtain pre c post where
      *: "xs = pre @ c # post" "\<not> list_ex is_pktinfo pre" "is_pktinfo c"
         "walk_cmsgs conv port xs la = walk_cmsgs conv port [c] la"
      by blast
    from False have "walk_cmsgs conv port (x # xs) la = walk_cmsgs conv port xs la"
      by (auto simp: is_pktinfo_def)
    with * False show ?thesis
      by (intro exI[of _ "x # pre"] exI[of _ c] exI[of _ post]) simp
  qed
qed


lemma PrepareReceive_ignores_control:
  "QuicSocketContextPrepareReceive (sk\<lparr>CurrentRecvBlock := None, RecvMsgControl := cs\<rparr>) s
     = (case QuicSocketContextPrepareReceive (sk\<lparr>CurrentRecvBlock := None\<rparr>) s of
          Inl e \<Rightarrow> Inl e
        | Inr (st, sk', s') \<Rightarrow>
            Inr (st, if QUIC_FAILED st then sk'\<lparr>RecvMsgControl := cs\<rparr> else sk', s'))"
  by (auto simp: QuicSocketContextPrepareReceive_def QUIC_FAILED_def
      split: sum.splits option.splits prod.splits)

lemma RecvComplete_depends_on_walk:
  assumes "\<And>la. walk_cmsgs conv (sin_port (B_LocalAddress B)) cs la
                 = walk_cmsgs conv (sin_port (B_LocalAddress B)) (RecvMsgControl sk) la"
      and "list_ex is_pktinfo cs = list_ex is_pktinfo (RecvMsgControl sk)"
  shows "QuicSocketContextRecvComplete conv H B (sk\<lparr>RecvMsgControl := cs\<rparr>) pc n s
           = QuicSocketContextRecvComplete conv H B sk pc n s"
proof -
  have swap: "\<And>x. (sk\<lparr>RecvMsgControl := x\<rparr>)\<lparr>CurrentRecvBlock := None\<rparr>
                  = sk\<lparr>CurrentRecvBlock := None, RecvMsgControl := x\<rparr>"
    by simp
  have "QuicSocketContextPrepareReceive (sk\<lparr>CurrentRecvBlock := None\<rparr>) s3
          = QuicSocketContextPrepareReceive
              (sk\<lparr>CurrentRecvBlock := None, RecvMsgControl := RecvMsgControl sk\<rparr>) s3" for s3
    by simp
  then show ?thesis
    using assms
    unfolding QuicSocketContextRecvComplete_def rearm_receive_def swap
    by (simp add: PrepareReceive_ignores_control Let_def
        split: option.splits sum.splits prod.splits)
qed

lemma RecvComplete_example:
  "QuicSocketContextRecvComplete QuicConvertFromMappedV6 keep_datagram (example_binding 5)
        (armed_socket [other_cmsg, pktinfo6]) worker0 100 armed_store
     = Inr \<lparr>RR_Datagram = 300,
            RR_Delivered = armed_store
              \<lparr>blocks := [300 \<mapsto> (recv_block 0 300 None)
                  \<lparr>RecvPacket := (RecvPacket (recv_block 0 300 None))
                     \<lparr>BufferLength := 100, PartitionIndex := 0\<rparr>,
                   RB_Tuple := \<lparr>Tuple_LocalAddress =
                                  \<lparr>sa_family = AF_INET6, sin_port = 50000, sin_addr = 0,
                                   sin6_addr = 1, sin6_scope_id = 4\<rparr>,
                                Tuple_RemoteAddress = zero_addr\<rparr>\<rparr>]\<rparr>,
            RR_SocketContext = (armed_socket [])
              \<lparr>CurrentRecvBlock := Some 302, RecvIov := \<lparr>iov_base = Some 302, iov_len = 1472\<rparr>,
               RecvMsgHdr_msg_name := Some 302\<rparr>,
            RR_Store =
              \<lparr>blocks = [300 \<mapsto> (recv_block 0 300 None)
                  \<lparr>RecvPacket := (RecvPacket (recv_block 0 300 None))
                     \<lparr>BufferLength := 100, PartitionIndex := 0\<rparr>,
                   RB_Tuple := \<lparr>Tuple_LocalAddress =
                                  \<lparr>sa_family = AF_INET6, sin_port = 50000, sin_addr = 0,
                                   sin6_addr = 1, sin6_scope_id = 4\<rparr>,
                                Tuple_RemoteAddress = zero_addr\<rparr>\<rparr>,
                        302 \<mapsto> (recv_block 0 302 None)
                  \<lparr>RecvPacket := (RecvPacket (recv_block 0 302 None))
                     \<lparr>BufferLength := 1472\<rparr>\<rparr>],
               datapath = initialized_datapath 3 [] [] []\<rparr>\<rparr>"
  by (simp add: QuicSocketContextRecvComplete_def rearm_receive_def armed_socket_def
      armed_store_def recv_block_def zero_recv_block_def other_cmsg_def pktinfo6_def example_binding_def
      addr_v4_def zero_addr_def worker0_def keep_datagram_def QuicConvertFromMappedV6_def
      IN6_IS_ADDR_V4MAPPED_def QuicSocketContextPrepareReceive_def QuicDataPathAllocRecvBlock_def
      initialized_datapath_def QuicPoolAlloc_def set_RecvBlockPool_def QUIC_FAILED_def
      zero_socket_context_def IPPROTO_IPV6_def IPV6_PKTINFO_def SOL_SOCKET_def IPPROTO_IP_def
      IP_PKTINFO_def)

text \<open>
  Claim C8: when the walk over the control messages of the received message finds no
  \<open>IPV6_PKTINFO\<close> and no \<open>IP_PKTINFO\<close> record, the process stops at
  \<open>QUIC_FRE_ASSERT(FoundLocalAddr)\<close> (an armed receive block given; without one it
  stops earlier, at the dereference). What follows the assertion is reached (the call
  returns, or stops at the second assertion, after the callback) only when the control
  messages hold a matching record, and then exactly one record is used: the first
  matching one, and the call does what it does when that record is the only control
  message.
\<close>

theorem RecvComplete_requires_pktinfo:
  "(\<not> list_ex is_pktinfo (RecvMsgControl sk) \<longrightarrow>
      QuicSocketContextRecvComplete conv H B sk pc n s
        = (if \<exists>a blk. CurrentRecvBlock sk = Some a \<and> blocks s a = Some blk
           then Inl (FRE_ASSERT ''FoundLocalAddr'') else Inl NULL_DEREFERENCE))
   \<and> ((\<exists>r. QuicSocketContextRecvComplete conv H B sk pc n s = Inr r)
        \<or> QuicSocketContextRecvComplete conv H B sk pc n s
            = Inl (FRE_ASSERT ''QUIC_SUCCEEDED(Status)'') \<longrightarrow>
      (\<exists>pre c post. RecvMsgControl sk = pre @ c # post
          \<and> \<not> list_ex is_pktinfo pre \<and> is_pktinfo c
          \<and> QuicSocketContextRecvComplete conv H B (sk\<lparr>RecvMsgControl := [c]\<rparr>) pc n s
              = QuicSocketContextRecvComplete conv H B sk pc n s))"
proof (intro conjI impI)
  assume "\<not> list_ex is_pktinfo (RecvMsgControl sk)"
  then show "QuicSocketContextRecvComplete conv H B sk pc n s
        = (if \<exists>a blk. CurrentRecvBlock sk = Some a \<and> blocks s a = Some blk
           then Inl (FRE_ASSERT ''FoundLocalAddr'') else Inl NULL_DEREFERENCE)"
    by (auto simp: QuicSocketContextRecvComplete_def walk_cmsgs_none split: option.splits)
next
  assume reach: "(\<exists>r. QuicSocketContextRecvComplete conv H B sk pc n s = Inr r)
        \<or> QuicSocketContextRecvComplete conv H B sk pc n s
            = Inl (FRE_ASSERT ''QUIC_SUCCEEDED(Status)'')"
  have found: "list_ex is_pktinfo (RecvMsgControl sk)"
  proof (rule ccontr)
    assume "\<not> list_ex is_pktinfo (RecvMsgControl sk)"
    then have "QuicSocketContextRecvComplete conv H B sk pc n s = Inl (FRE_ASSERT ''FoundLocalAddr'')
             \<or> QuicSocketContextRecvComplete conv H B sk pc n s = Inl NULL_DEREFERENCE"
      by (auto simp: QuicSocketContextRecvComplete_def walk_cmsgs_none split: option.splits)
    with reach show False by auto
  qed
  let ?port = "sin_port (B_LocalAddress B)"
  from walk_cmsgs_first[OF found, of conv ?port] 
  have "\<exists>pre c post. RecvMsgControl sk = pre @ c # post \<and> \<not> list_ex is_pktinfo pre
          \<and> is_pktinfo c"
    by blast
  then obtain pre c post where split: "RecvMsgControl sk = pre @ c # post"
      "\<not> list_ex is_pktinfo pre" "is_pktinfo c"
    by blast
  have walk: "walk_cmsgs conv ?port [c] la = walk_cmsgs conv ?port (RecvMsgControl sk) la" for la
  proof -
    have "walk_cmsgs conv ?port (pre @ c # post) la = walk_cmsgs conv ?port (c # post) la"
      using split(2) by (induction pre) (auto simp: is_pktinfo_def)
    also have "\<dots> = walk_cmsgs conv ?port [c] la"
      using split(3) by (auto simp: is_pktinfo_def)
    finally show ?thesis by (simp add: split(1))
  qed
  have "QuicSocketContextRecvComplete conv H B (sk\<lparr>RecvMsgControl := [c]\<rparr>) pc n s
          = QuicSocketContextRecvComplete conv H B sk pc n s"
    by (rule RecvComplete_depends_on_walk) (use walk found split(3) in simp_all)
  with split show "\<exists>pre c post. RecvMsgControl sk = pre @ c # post
          \<and> \<not> list_ex is_pktinfo pre \<and> is_pktinfo c
          \<and> QuicSocketContextRecvComplete conv H B (sk\<lparr>RecvMsgControl := [c]\<rparr>) pc n s
              = QuicSocketContextRecvComplete conv H B sk pc n s"
    by blast
qed

theorem RecvComplete_requires_pktinfo_witness:
  "QuicSocketContextRecvComplete QuicConvertFromMappedV6 keep_datagram (example_binding 5)
        (armed_socket [other_cmsg]) worker0 100 armed_store
     = Inl (FRE_ASSERT ''FoundLocalAddr'')
   \<and> (\<exists>c. is_pktinfo c
        \<and> QuicSocketContextRecvComplete QuicConvertFromMappedV6 keep_datagram
            (example_binding 5) (armed_socket [c]) worker0 100 armed_store
          = QuicSocketContextRecvComplete QuicConvertFromMappedV6 keep_datagram
            (example_binding 5) (armed_socket [other_cmsg, pktinfo6]) worker0 100 armed_store)"
proof -
  have no: "\<not> list_ex is_pktinfo (RecvMsgControl (armed_socket [other_cmsg]))"
    by (simp add: armed_socket_def is_pktinfo_def other_cmsg_def pktinfo6_def
        IPPROTO_IPV6_def IPV6_PKTINFO_def SOL_SOCKET_def IPPROTO_IP_def IP_PKTINFO_def)
  have armed: "\<exists>a blk. CurrentRecvBlock (armed_socket [other_cmsg]) = Some a
                 \<and> blocks armed_store a = Some blk"
    by (simp add: armed_socket_def armed_store_def)
  from RecvComplete_requires_pktinfo
         [of "armed_socket [other_cmsg]" QuicConvertFromMappedV6 keep_datagram
             "example_binding 5" worker0 100 armed_store] no armed
  have first: "QuicSocketContextRecvComplete QuicConvertFromMappedV6 keep_datagram
        (example_binding 5) (armed_socket [other_cmsg]) worker0 100 armed_store
     = Inl (FRE_ASSERT ''FoundLocalAddr'')"
    by simp
  have same: "(armed_socket cs)\<lparr>RecvMsgControl := [c]\<rparr> = armed_socket [c]" for cs c
    by (simp add: armed_socket_def)
  from RecvComplete_requires_pktinfo
         [of "armed_socket [other_cmsg, pktinfo6]" QuicConvertFromMappedV6 keep_datagram
             "example_binding 5" worker0 100 armed_store] RecvComplete_example
  have second: "\<exists>c. is_pktinfo c
        \<and> QuicSocketContextRecvComplete QuicConvertFromMappedV6 keep_datagram
            (example_binding 5) (armed_socket [c]) worker0 100 armed_store
          = QuicSocketContextRecvComplete QuicConvertFromMappedV6 keep_datagram
            (example_binding 5) (armed_socket [other_cmsg, pktinfo6]) worker0 100 armed_store"
    unfolding same by blast
  from first second show ?thesis by simp
qed

text \<open>
  A completion that has called the receive callback can still stop the process: with
  the receive-block pool empty, the preparation of the next receive fails after the
  callback has returned.
\<close>

lemma RecvComplete_low_memory_example:
  "QuicSocketContextRecvComplete QuicConvertFromMappedV6 keep_datagram (example_binding 5)
        (armed_socket [pktinfo6]) worker0 100
        (armed_store\<lparr>datapath := initialized_datapath 3 [] [] []\<rparr>)
     = Inl (FRE_ASSERT ''QUIC_SUCCEEDED(Status)'')"
  by (simp add: QuicSocketContextRecvComplete_def rearm_receive_def armed_socket_def
      armed_store_def recv_block_def zero_recv_block_def pktinfo6_def example_binding_def
      addr_v4_def zero_addr_def worker0_def keep_datagram_def QuicConvertFromMappedV6_def
      IN6_IS_ADDR_V4MAPPED_def QuicSocketContextPrepareReceive_def QuicDataPathAllocRecvBlock_def
      initialized_datapath_def QuicPoolAlloc_def set_RecvBlockPool_def QUIC_FAILED_def
      zero_socket_context_def IPPROTO_IPV6_def IPV6_PKTINFO_def)



subsection \<open>Creating a binding\<close>

lemma query_local_address_shape:
  assumes "query_local_address K i b w = (st, b', w')" and "i < length (SocketContexts b)"
  shows "\<exists>new. events w' = events w @ new \<and> \<not> list_ex is_binding_release new
         \<and> (\<not> QUIC_FAILED st \<longrightarrow> SocketFd (SocketContexts b' ! i) = SocketFd (SocketContexts b ! i))"
  using assms
  by (auto simp: query_local_address_def sys_def emit_def close_on_failure_def Let_def
      QUIC_FAILED_def split: if_splits)

lemma SocketContextInitialize_example:
  "on_result init_view
     (QuicSocketContextInitialize kernel_ok None (Some addr_v6) 0 unbound_binding world0)
   = Inr (QUIC_STATUS_SUCCESS, [4],
          [Sys_socket AF_INET6, Sys_socket AF_INET,
           Sys_setsockopt 4 IPPROTO_IPV6 IPV6_RECVPKTINFO 1,
           Sys_setsockopt 4 IPPROTO_IPV6 IPV6_V6ONLY 0,
           Sys_setsockopt 4 IPPROTO_IPV6 IPV6_RECVPKTINFO 1,
           Sys_setsockopt 4 SOL_SOCKET SO_REUSEADDR 1,
           Sys_bind 4 (zero_addr\<lparr>sa_family := AF_INET6\<rparr>) 16,
           Sys_connect 4 addr_v6 28,
           Sys_getsockname 4 16])"
  by (simp add: QuicSocketContextInitialize_def unbound_binding_def world0_def kernel_ok_def
      sysret_ok_def sys_def emit_def emits_def Let_def set_SocketFd_def logged_sockopts_def
      query_local_address_def close_on_failure_def addr_v6_def AF_INET_def AF_INET6_def
      INVALID_SOCKET_FD_def SOCKET_ERROR_def zero_socket_context_def init_view_def
      QUIC_FAILED_def)

text \<open>
  Claim C3 says that the socket a socket context uses is created in the family of the
  address that pins it. The code does not do that: \<open>QuicSocketContextInitialize\<close>
  calls \<open>socket\<close> with that family and then once more with \<open>AF_INET\<close>, and the
  second result replaces the first in \<open>SocketFd\<close>. Whenever the call returns, the
  first two events it added are these two calls, and on success the descriptor that
  has been configured, bound and connected is the one the \<open>AF_INET\<close> call returned.
\<close>

theorem SocketContextInitialize_uses_AF_INET_socket:
  assumes "QuicSocketContextInitialize K L R i B w = Inr (st, B', w')"
  shows "\<exists>af. (case R of None \<Rightarrow> map_option sa_family L | Some ra \<Rightarrow> Some (sa_family ra)) = Some af
       \<and> take 2 (drop (length (events w)) (events w')) = [Sys_socket af, Sys_socket AF_INET]
       \<and> (\<not> QUIC_FAILED st \<longrightarrow>
            SocketFd (SocketContexts B' ! i)
              = ret (K (events w @ [Sys_socket af, Sys_socket AF_INET])))"
proof -
  from assms obtain af where
    af: "(case R of None \<Rightarrow> map_option sa_family L | Some ra \<Rightarrow> Some (sa_family ra)) = Some af"
    and i: "i < length (SocketContexts B)"
    by (auto simp: QuicSocketContextInitialize_def split: if_splits option.splits)
  define e2 where "e2 = events w @ [Sys_socket af, Sys_socket AF_INET]"
  define fd where "fd = ret (K e2)"
  define b2 where "b2 = set_SocketFd i fd (set_SocketFd i (ret (K (events w @ [Sys_socket af]))) B)"
  define w3 where "w3 = w\<lparr>events := e2 @ logged_sockopts af fd\<rparr>"
  have fd2: "SocketFd (SocketContexts b2 ! i) = fd" "i < length (SocketContexts b2)"
    using i by (simp_all add: b2_def set_SocketFd_def)
  have pre: "\<And>x. take 2 (drop (length (events w)) (e2 @ x)) = [Sys_socket af, Sys_socket AF_INET]"
    by (simp add: e2_def)
  from assms af i have
    "\<exists>new. events w' = e2 @ new
       \<and> (\<not> QUIC_FAILED st \<longrightarrow> SocketFd (SocketContexts B' ! i) = fd)"
    unfolding QuicSocketContextInitialize_def
    by (auto simp: sys_def emit_def emits_def Let_def e2_def fd_def close_on_failure_def
        set_SocketFd_def query_local_address_def QUIC_FAILED_def
        split: if_splits prod.splits option.splits)
  then show ?thesis using af pre by (auto simp: fd_def e2_def)
qed

theorem SocketContextInitialize_uses_AF_INET_socket_witness:
  "on_result init_view
     (QuicSocketContextInitialize kernel_ok None (Some addr_v6) 0 unbound_binding world0)
   = Inr (QUIC_STATUS_SUCCESS, [4],
          [Sys_socket AF_INET6, Sys_socket AF_INET,
           Sys_setsockopt 4 IPPROTO_IPV6 IPV6_RECVPKTINFO 1,
           Sys_setsockopt 4 IPPROTO_IPV6 IPV6_V6ONLY 0,
           Sys_setsockopt 4 IPPROTO_IPV6 IPV6_RECVPKTINFO 1,
           Sys_setsockopt 4 SOL_SOCKET SO_REUSEADDR 1,
           Sys_bind 4 (zero_addr\<lparr>sa_family := AF_INET6\<rparr>) 16,
           Sys_connect 4 addr_v6 28,
           Sys_getsockname 4 16])
   \<and> sa_family addr_v6 = AF_INET6 \<and> AF_INET6 \<noteq> AF_INET
   \<and> ret (kernel_ok [Sys_socket AF_INET6, Sys_socket AF_INET]) = 4"
proof -
  obtain st b w where
    run: "QuicSocketContextInitialize kernel_ok None (Some addr_v6) 0 unbound_binding world0
            = Inr (st, b, w)"
    using SocketContextInitialize_example
    by (cases "QuicSocketContextInitialize kernel_ok None (Some addr_v6) 0 unbound_binding world0")
       auto
  from SocketContextInitialize_uses_AF_INET_socket [OF run]
  have "take 2 (drop (length (events world0)) (events w)) = [Sys_socket AF_INET6, Sys_socket AF_INET]"
    by (simp add: addr_v6_def)
  then show ?thesis
    using SocketContextInitialize_example
    by (simp add: addr_v6_def AF_INET_def AF_INET6_def kernel_ok_def sysret_ok_def)
qed

lemma SocketContextInitialize_no_release:
  assumes "QuicSocketContextInitialize K L R i B w = Inr (st, B', w')"
  shows "\<exists>new. events w' = events w @ new \<and> \<not> list_ex is_binding_release new"
  using assms unfolding QuicSocketContextInitialize_def
  by (auto simp: sys_def emit_def emits_def Let_def close_on_failure_def
      logged_sockopts_def query_local_address_def
      split: if_splits prod.splits option.splits)

lemma StartReceive_no_release:
  assumes "QuicSocketContextStartReceive K i kq B s w = Inr (st, B', s', w')"
  shows "\<exists>new. events w' = events w @ new \<and> \<not> list_ex is_binding_release new"
  using assms unfolding QuicSocketContextStartReceive_def
  by (auto simp: sys_def emit_def Let_def close_on_failure_def
      split: if_splits prod.splits option.splits sum.splits)

lemma init_sockets_no_release:
  "init_sockets K L R is B w = Inr (st, B', w') \<Longrightarrow>
     \<exists>new. events w' = events w @ new \<and> \<not> list_ex is_binding_release new"
proof (induction "is" arbitrary: B w)
  case Nil
  then show ?case by simp
next
  case (Cons i rest)
  from Cons.prems obtain st1 B1 w1 where
    one: "QuicSocketContextInitialize K L R i B w = Inr (st1, B1, w1)"
    by (cases "QuicSocketContextInitialize K L R i B w") auto
  from SocketContextInitialize_no_release[OF one] obtain new1 where
    n1: "events w1 = events w @ new1" "\<not> list_ex is_binding_release new1" by blast
  show ?case
  proof (cases "QUIC_FAILED st1")
    case True
    with Cons.prems one n1 show ?thesis by auto
  next
    case False
    with Cons.prems one have "init_sockets K L R rest B1 w1 = Inr (st, B', w')" by simp
    from Cons.IH[OF this] obtain new2 where
      "events w' = events w1 @ new2" "\<not> list_ex is_binding_release new2" by blast
    with n1 show ?thesis by (intro exI[of _ "new1 @ new2"]) simp
  qed
qed

lemma start_receives_no_release:
  "start_receives K is B s w = Inr (st, B', s', w') \<Longrightarrow>
     \<exists>new. events w' = events w @ new \<and> \<not> list_ex is_binding_release new"
proof (induction "is" arbitrary: B s w)
  case Nil
  then show ?case by simp
next
  case (Cons i rest)
  from Cons.prems have len: "\<not> length (ProcContexts (datapath s)) \<le> i"
    by (auto split: if_splits)
  with Cons.prems obtain st1 B1 s1 w1 where
    one: "QuicSocketContextStartReceive K i (KqueueFd (ProcContexts (datapath s) ! i)) B s w
            = Inr (st1, B1, s1, w1)"
    by (cases "QuicSocketContextStartReceive K i (KqueueFd (ProcContexts (datapath s) ! i)) B s w")
       auto
  from StartReceive_no_release[OF one] obtain new1 where
    n1: "events w1 = events w @ new1" "\<not> list_ex is_binding_release new1" by blast
  show ?case
  proof (cases "QUIC_FAILED st1")
    case True
    with Cons.prems one n1 len show ?thesis by auto
  next
    case False
    with Cons.prems one len have "start_receives K rest B1 s1 w1 = Inr (st, B', s', w')"
      by simp
    from Cons.IH[OF this] obtain new2 where
      "events w' = events w1 @ new2" "\<not> list_ex is_binding_release new2" by blast
    with n1 show ?thesis by (intro exI[of _ "new1 @ new2"]) simp
  qed
qed

lemma no_release_replicate:
  "\<not> list_ex is_binding_release (replicate n (QuicRundownAcquire r))"
  by (induction n) simp_all

lemma create_exit_no_release:
  "\<exists>new. events (CR_World (create_exit st nb p b s w)) = events w @ new
         \<and> \<not> list_ex is_binding_release new"
  by (simp add: create_exit_def emits_def)

lemma create_sockets_no_release:
  assumes "create_sockets K L R p n Binding s w = Inr r"
  shows "\<exists>new. events (CR_World r) = events w @ new \<and> \<not> list_ex is_binding_release new"
proof -
  from assms obtain st1 b1 w1 where
    init: "init_sockets K L R [0..<n] Binding w = Inr (st1, b1, w1)"
    by (cases "init_sockets K L R [0..<n] Binding w") (auto simp: create_sockets_def)
  from init_sockets_no_release[OF init] obtain new1 where
    ev1: "events w1 = events w @ new1" "\<not> list_ex is_binding_release new1" by blast
  show ?thesis
  proof (cases "QUIC_FAILED st1")
    case True
    with assms init have "r = create_exit st1 None p b1 s w1"
      by (simp add: create_sockets_def)
    with create_exit_no_release[of st1 None p b1 s w1] ev1 show ?thesis
      by (metis append.assoc list_ex_append)
  next
    case False
    define b where "b = (case R of None \<Rightarrow> b1 | Some ra \<Rightarrow> b1\<lparr>B_RemoteAddress := ra\<rparr>)"
    from assms init False obtain st2 b2 s2 w2 where
      sr: "start_receives K [0..<n] b s w1 = Inr (st2, b2, s2, w2)"
      and r: "r = create_exit st2 (Some p) p b2 s2 w2"
      by (cases "start_receives K [0..<n] b s w1") (auto simp: create_sockets_def b_def)
    from start_receives_no_release[OF sr] ev1 obtain new2 where
      ev2: "events w2 = events w @ new2" "\<not> list_ex is_binding_release new2"
      by (metis append.assoc list_ex_append)
    with create_exit_no_release[of st2 "Some p" p b2 s2 w2] r show ?thesis
      by (metis append.assoc list_ex_append)
  qed
qed

lemma BindingCreate_failing_example:
  "on_result create_view
     (QuicDataPathBindingCreate kernel_kevent_fails None (Some addr_v4) (Some 7)
        (empty_store [302]) world0)
   = Inr (QUIC_STATUS_INTERNAL_ERROR, Some 1000, None, [302], [[]],
          [QUIC_ALLOC_PAGED 1,
           QuicRundownInitialize (BindingRundown 1000),
           QuicRundownAcquire (BindingRundown 1000),
           QuicRundownAcquire BindingsRundown,
           Sys_socket AF_INET, Sys_socket AF_INET,
           Sys_setsockopt 8 IPPROTO_IP IP_RECVDSTADDR 1,
           Sys_setsockopt 8 IPPROTO_IP IP_PKTINFO 1,
           Sys_setsockopt 8 IPPROTO_IP IP_RECVIF 1,
           Sys_setsockopt 8 SOL_SOCKET SO_REUSEADDR 1,
           Sys_bind 8 (zero_addr\<lparr>sa_family := AF_INET\<rparr>) 16,
           Sys_connect 8 addr_v4 16,
           Sys_getsockname 8 16,
           Sys_kevent 3 8 EVFILT_READ [EV_ADD, EV_CLEAR],
           Sys_close 8,
           QuicRundownRelease BindingsRundown,
           QuicRundownUninitialize (BindingRundown 1000),
           QUIC_FREE 1000])"
  by (simp add: QuicDataPathBindingCreate_def empty_store_def initialized_datapath_def
      world0_def kernel_kevent_fails_def sysret_ok_def sysret_failed_def sys_def emit_def
      emits_def Let_def QuicSocketContextInitialize_def set_SocketFd_def logged_sockopts_def
      query_local_address_def close_on_failure_def addr_v4_def AF_INET_def
      INVALID_SOCKET_FD_def SOCKET_ERROR_def zero_socket_context_def zero_iovec_def
      QUIC_FAILED_def QuicSocketContextStartReceive_def QuicSocketContextPrepareReceive_def
      QuicDataPathAllocRecvBlock_def QuicPoolAlloc_def set_RecvBlockPool_def create_exit_def
      create_sockets_def new_binding_def
      create_view_def QUIC_MAX_MTU_def QUIC_MIN_IPV4_HEADER_SIZE_def QUIC_UDP_HEADER_SIZE_def
      zero_recv_block_def zero_addr_def)

text \<open>
  Claim C4 says that a failing \<open>QuicDataPathBindingCreate\<close> tears down the socket
  contexts it has constructed, releasing the reference each holds on the binding's
  rundown, and leaves the datapath as it was. The code does not do that (its \<open>Exit\<close>
  path says \<open>TODO - Clean up socket contexts\<close>): no call of
  \<open>QuicDataPathBindingCreate\<close>, failing or not, ever releases a reference on a
  binding's rundown. In the run evaluated below the registration with the kqueue fails
  after the one socket context has been set up: the reference on the binding's rundown
  is not released, the receive block taken for the socket has left its pool for good,
  and \<open>*NewBinding\<close> holds the address of the freed binding.
\<close>

theorem BindingCreate_never_releases_binding_rundown:
  assumes "QuicDataPathBindingCreate K L R ctx s w = Inr r"
  shows "\<exists>new. events (CR_World r) = events w @ new \<and> \<not> list_ex is_binding_release new"
proof -
  define n where "n = unat (ProcCount (datapath s))"
  show ?thesis
  proof (cases "memory (K (events w @ [QUIC_ALLOC_PAGED n]))")
    case None
    with assms show ?thesis
      by (auto simp: QuicDataPathBindingCreate_def sys_def emit_def Let_def n_def)
  next
    case (Some p)
    define w2 where "w2 = emits (QuicRundownInitialize (BindingRundown p)
                                   # replicate n (QuicRundownAcquire (BindingRundown p))
                                   @ [QuicRundownAcquire BindingsRundown])
                            (emit (QUIC_ALLOC_PAGED n) w)"
    have ev2: "\<exists>new. events w2 = events w @ new \<and> \<not> list_ex is_binding_release new"
      by (simp add: w2_def emits_def emit_def no_release_replicate)
    from assms Some obtain local where
      "create_sockets K L R p n (new_binding ctx local n) s w2 = Inr r"
      by (auto simp: QuicDataPathBindingCreate_def sys_def Let_def n_def w2_def
          split: option.splits)
    from create_sockets_no_release[OF this] ev2 show ?thesis
      by (metis append.assoc list_ex_append)
  qed
qed

theorem BindingCreate_never_releases_binding_rundown_witness:
  "on_result create_view
     (QuicDataPathBindingCreate kernel_kevent_fails None (Some addr_v4) (Some 7)
        (empty_store [302]) world0)
   = Inr (QUIC_STATUS_INTERNAL_ERROR, Some 1000, None, [302], [[]],
          [QUIC_ALLOC_PAGED 1,
           QuicRundownInitialize (BindingRundown 1000),
           QuicRundownAcquire (BindingRundown 1000),
           QuicRundownAcquire BindingsRundown,
           Sys_socket AF_INET, Sys_socket AF_INET,
           Sys_setsockopt 8 IPPROTO_IP IP_RECVDSTADDR 1,
           Sys_setsockopt 8 IPPROTO_IP IP_PKTINFO 1,
           Sys_setsockopt 8 IPPROTO_IP IP_RECVIF 1,
           Sys_setsockopt 8 SOL_SOCKET SO_REUSEADDR 1,
           Sys_bind 8 (zero_addr\<lparr>sa_family := AF_INET\<rparr>) 16,
           Sys_connect 8 addr_v4 16,
           Sys_getsockname 8 16,
           Sys_kevent 3 8 EVFILT_READ [EV_ADD, EV_CLEAR],
           Sys_close 8,
           QuicRundownRelease BindingsRundown,
           QuicRundownUninitialize (BindingRundown 1000),
           QUIC_FREE 1000])
   \<and> map RecvBlockPool (ProcContexts (datapath (empty_store [302]))) = [[302]]"
proof -
  obtain r where
    run: "QuicDataPathBindingCreate kernel_kevent_fails None (Some addr_v4) (Some 7)
            (empty_store [302]) world0 = Inr r"
    using BindingCreate_failing_example
    by (cases "QuicDataPathBindingCreate kernel_kevent_fails None (Some addr_v4) (Some 7)
                 (empty_store [302]) world0") auto
  from BindingCreate_never_releases_binding_rundown [OF run]
  have "\<exists>new. events (CR_World r) = new \<and> \<not> list_ex is_binding_release new"
    by (simp add: world0_def)
  then show ?thesis
    using BindingCreate_failing_example
    by (simp add: empty_store_def initialized_datapath_def)
qed

subsection \<open>Deleting a binding\<close>

lemma registered_from_append:
  "registered_from K past (es @ es') regs
     = registered_from K (past @ es) es' (registered_from K past es regs)"
  by (induction es arbitrary: past regs) simp_all

lemma registered_append:
  "registered K (es @ es') = registered_from K es es' (registered K es)"
  by (simp add: registered_def registered_from_append)

lemma registered_after_close:
  "(kq, fd) \<notin> set (registered K (es @ [Sys_close fd]))"
  by (simp add: registered_append)

lemma kevent_step_subset:
  "\<not> is_kevent e \<Longrightarrow> set (kevent_step r e regs) \<subseteq> set regs"
  by (cases "(r, e, regs)" rule: kevent_step.cases) auto

lemma registered_from_subset:
  "\<not> list_ex is_kevent es \<Longrightarrow> set (registered_from K past es regs) \<subseteq> set regs"
proof (induction es arbitrary: past regs)
  case Nil
  then show ?case by simp
next
  case (Cons e es)
  then have "set (registered_from K (past @ [e]) es (kevent_step (K (past @ [e])) e regs))
               \<subseteq> set (kevent_step (K (past @ [e])) e regs)"
    by simp
  also have "\<dots> \<subseteq> set regs" using Cons.prems by (simp add: kevent_step_subset)
  finally show ?case by simp
qed

lemma registered_closed:
  assumes "\<not> list_ex is_kevent post"
  shows "(kq, fd) \<notin> set (registered K (pre @ Sys_close fd # post))"
proof -
  have "registered K (pre @ Sys_close fd # post)
          = registered_from K (pre @ [Sys_close fd]) post (registered K (pre @ [Sys_close fd]))"
    using registered_append [of K "pre @ [Sys_close fd]" post] by simp
  with registered_from_subset [OF assms, of K "pre @ [Sys_close fd]" "registered K (pre @ [Sys_close fd])"]
       registered_after_close [of kq fd K pre]
  show ?thesis by auto
qed

lemma Uninitialize_all_events:
  "events (foldl (\<lambda>w' sk. QuicSocketContextUninitialize p sk w') w sks)
     = events w @ concat (map (uninitialize_steps p) sks)"
  by (induction sks arbitrary: w)
     (simp_all add: QuicSocketContextUninitialize_def emit_def uninitialize_steps_def)

lemma Uninitialize_all_rest:
  "traced (foldl (\<lambda>w' sk. QuicSocketContextUninitialize p sk w') w sks) = traced w"
  "bytes (foldl (\<lambda>w' sk. QuicSocketContextUninitialize p sk w') w sks) = bytes w"
  by (induction sks arbitrary: w) (simp_all add: QuicSocketContextUninitialize_def emit_def)

lemma BindingDelete_events:
  "QuicDataPathBindingDelete p Binding dp w =
     (if length (SocketContexts Binding) < unat (ProcCount dp) then Inl OUT_OF_BOUNDS
      else
        Inr (w\<lparr>events := events w
               @ Store_Shutdown p # concat (map (uninitialize_steps p) (torn_down Binding dp))
               @ [QuicRundownReleaseAndWait (BindingRundown p),
                  QuicRundownRelease BindingsRundown,
                  QuicRundownUninitialize (BindingRundown p),
                  QUIC_FREE p]\<rparr>))"
  by (simp add: QuicDataPathBindingDelete_def emits_def emit_def torn_down_def
      Uninitialize_all_events Uninitialize_all_rest)

lemma no_kevent_in_uninitialize:
  "\<not> list_ex is_kevent (concat (map (uninitialize_steps p) sks))"
  by (induction sks) (simp_all add: uninitialize_steps_def)

lemma closed_in_uninitialize:
  "sk \<in> set sks \<Longrightarrow>
     \<exists>pre post. concat (map (uninitialize_steps p) sks) = pre @ Sys_close (SocketFd sk) # post
        \<and> \<not> list_ex is_kevent post"
proof (induction sks)
  case Nil
  then show ?case by simp
next
  case (Cons x xs)
  show ?case
  proof (cases "sk = x")
    case True
    have "concat (map (uninitialize_steps p) (x # xs))
            = [] @ Sys_close (SocketFd sk)
                # (QuicRundownRelease (BindingRundown p) # concat (map (uninitialize_steps p) xs))"
      by (simp add: uninitialize_steps_def True)
    moreover have "\<not> list_ex is_kevent
        (QuicRundownRelease (BindingRundown p) # concat (map (uninitialize_steps p) xs))"
      using no_kevent_in_uninitialize [of p xs] by simp
    ultimately show ?thesis by blast
  next
    case False
    with Cons.prems have "sk \<in> set xs" by simp
    from Cons.IH [OF this] obtain pre post where
      *: "concat (map (uninitialize_steps p) xs) = pre @ Sys_close (SocketFd sk) # post"
         "\<not> list_ex is_kevent post"
      by blast
    have "concat (map (uninitialize_steps p) (x # xs))
            = (uninitialize_steps p x @ pre) @ Sys_close (SocketFd sk) # post"
      using * by simp
    with * show ?thesis by blast
  qed
qed

text \<open>
  Claim C5: for every binding with its \<open>ProcCount\<close> socket contexts,
  \<open>QuicDataPathBindingDelete\<close> does, in this order: the store of the \<open>Shutdown\<close>
  flag; for each socket context in turn the close of its descriptor and then the
  release of one reference on the binding's rundown; the wait for the binding's
  rundown; the release of one reference on the datapath's \<open>BindingsRundown\<close>; and,
  after the rundown has been uninitialized, the free of the binding. The socket leaves
  the readiness queue of its worker with the close of its descriptor (the \<open>kevent\<close>
  call with \<open>EV_DELETE\<close> is commented out): once the descriptor of a socket context
  is closed, which is before the release of its reference, no queue holds it, and none
  holds it when the call returns.
\<close>

theorem BindingDelete_steps_in_order:
  "QuicDataPathBindingDelete p Binding dp w =
     (if length (SocketContexts Binding) < unat (ProcCount dp) then Inl OUT_OF_BOUNDS
      else
        Inr (w\<lparr>events := events w
               @ Store_Shutdown p # concat (map (uninitialize_steps p) (torn_down Binding dp))
               @ [QuicRundownReleaseAndWait (BindingRundown p),
                  QuicRundownRelease BindingsRundown,
                  QuicRundownUninitialize (BindingRundown p),
                  QUIC_FREE p]\<rparr>))
   \<and> (\<forall>k < length (torn_down Binding dp). \<forall>kq.
         (kq, SocketFd (torn_down Binding dp ! k))
           \<notin> set (registered K (events w @ steps_until_close p (torn_down Binding dp) k)))
   \<and> (\<forall>w'. QuicDataPathBindingDelete p Binding dp w = Inr w' \<longrightarrow>
         (\<forall>sk \<in> set (torn_down Binding dp). \<forall>kq.
            (kq, SocketFd sk) \<notin> set (registered K (events w'))))"
proof (intro conjI allI impI ballI)
  show "QuicDataPathBindingDelete p Binding dp w =
     (if length (SocketContexts Binding) < unat (ProcCount dp) then Inl OUT_OF_BOUNDS
      else
        Inr (w\<lparr>events := events w
               @ Store_Shutdown p # concat (map (uninitialize_steps p) (torn_down Binding dp))
               @ [QuicRundownReleaseAndWait (BindingRundown p),
                  QuicRundownRelease BindingsRundown,
                  QuicRundownUninitialize (BindingRundown p),
                  QUIC_FREE p]\<rparr>))"
    by (rule BindingDelete_events)
next
  fix k kq
  have cut: "events w @ steps_until_close p (torn_down Binding dp) k
          = (events w @ Store_Shutdown p
               # concat (map (uninitialize_steps p) (take k (torn_down Binding dp))))
            @ [Sys_close (SocketFd (torn_down Binding dp ! k))]"
    by (simp add: steps_until_close_def)
  show "(kq, SocketFd (torn_down Binding dp ! k))
           \<notin> set (registered K (events w @ steps_until_close p (torn_down Binding dp) k))"
    unfolding cut by (rule registered_after_close)
next
  fix w' sk kq
  assume run: "QuicDataPathBindingDelete p Binding dp w = Inr w'"
     and sk: "sk \<in> set (torn_down Binding dp)"
  from closed_in_uninitialize [OF sk, of p] obtain pre post where
    split: "concat (map (uninitialize_steps p) (torn_down Binding dp))
              = pre @ Sys_close (SocketFd sk) # post"
      "\<not> list_ex is_kevent post"
    by blast
  from run have "events w'
      = events w @ Store_Shutdown p # concat (map (uninitialize_steps p) (torn_down Binding dp))
               @ [QuicRundownReleaseAndWait (BindingRundown p),
                  QuicRundownRelease BindingsRundown,
                  QuicRundownUninitialize (BindingRundown p),
                  QUIC_FREE p]"
    by (auto simp: BindingDelete_events split: if_splits)
  then have cut: "events w'
      = (events w @ Store_Shutdown p # pre) @ Sys_close (SocketFd sk)
          # (post @ [QuicRundownReleaseAndWait (BindingRundown p),
                  QuicRundownRelease BindingsRundown,
                  QuicRundownUninitialize (BindingRundown p),
                  QUIC_FREE p])"
    by (simp add: split(1))
  have quiet: "\<not> list_ex is_kevent (post @ [QuicRundownReleaseAndWait (BindingRundown p),
                  QuicRundownRelease BindingsRundown,
                  QuicRundownUninitialize (BindingRundown p),
                  QUIC_FREE p])"
    using split(2) by simp
  show "(kq, SocketFd sk) \<notin> set (registered K (events w'))"
    unfolding cut by (rule registered_closed [OF quiet])
qed

theorem BindingDelete_steps_in_order_witness:
  "registered kernel_ok (events registered_world) = [(3, 5)]
   \<and> on_result events
       (QuicDataPathBindingDelete 1000 (example_binding 5) (initialized_datapath 3 [] [] [])
          registered_world)
     = Inr [Sys_kevent 3 5 EVFILT_READ [EV_ADD, EV_CLEAR],
            Store_Shutdown 1000, Sys_close 5, QuicRundownRelease (BindingRundown 1000),
            QuicRundownReleaseAndWait (BindingRundown 1000),
            QuicRundownRelease BindingsRundown,
            QuicRundownUninitialize (BindingRundown 1000), QUIC_FREE 1000]
   \<and> (3, 5) \<notin> set (registered kernel_ok
         [Sys_kevent 3 5 EVFILT_READ [EV_ADD, EV_CLEAR], Store_Shutdown 1000, Sys_close 5])
   \<and> (3, 5) \<notin> set (registered kernel_ok
         [Sys_kevent 3 5 EVFILT_READ [EV_ADD, EV_CLEAR],
          Store_Shutdown 1000, Sys_close 5, QuicRundownRelease (BindingRundown 1000),
          QuicRundownReleaseAndWait (BindingRundown 1000),
          QuicRundownRelease BindingsRundown,
          QuicRundownUninitialize (BindingRundown 1000), QUIC_FREE 1000])"
proof -
  let ?done = "[Sys_kevent 3 5 EVFILT_READ [EV_ADD, EV_CLEAR],
          Store_Shutdown 1000, Sys_close 5, QuicRundownRelease (BindingRundown 1000),
          QuicRundownReleaseAndWait (BindingRundown 1000),
          QuicRundownRelease BindingsRundown,
          QuicRundownUninitialize (BindingRundown 1000), QUIC_FREE 1000]"
  have socks: "torn_down (example_binding 5) (initialized_datapath 3 [] [] [])
                 = [zero_socket_context\<lparr>SocketFd := 5\<rparr>]"
    by (simp add: torn_down_def example_binding_def initialized_datapath_def)
  have start: "events registered_world = [Sys_kevent 3 5 EVFILT_READ [EV_ADD, EV_CLEAR]]"
    by (simp add: registered_world_def)
  have before: "registered kernel_ok (events registered_world) = [(3, 5)]"
    by (simp add: registered_def registered_world_def kernel_ok_def sysret_ok_def)
  have len: "\<not> length (SocketContexts (example_binding 5))
               < unat (ProcCount (initialized_datapath 3 [] [] []))"
    by (simp add: example_binding_def initialized_datapath_def)
  note all = BindingDelete_steps_in_order
         [of 1000 "example_binding 5" "initialized_datapath 3 [] [] []" registered_world
            kernel_ok, unfolded socks]
  from all have run: "QuicDataPathBindingDelete 1000 (example_binding 5)
        (initialized_datapath 3 [] [] []) registered_world
      = Inr (registered_world\<lparr>events := ?done\<rparr>)"
    by (simp add: len start uninitialize_steps_def)
  from all have "(3, 5) \<notin> set (registered kernel_ok
        (events registered_world
           @ steps_until_close 1000 [zero_socket_context\<lparr>SocketFd := 5\<rparr>] 0))"
    by auto
  then have closed: "(3, 5) \<notin> set (registered kernel_ok
         [Sys_kevent 3 5 EVFILT_READ [EV_ADD, EV_CLEAR], Store_Shutdown 1000, Sys_close 5])"
    by (simp add: start steps_until_close_def)
  from all run have "(3, 5) \<notin> set (registered kernel_ok
        (events (registered_world\<lparr>events := ?done\<rparr>)))"
    by auto
  then have final: "(3, 5) \<notin> set (registered kernel_ok ?done)"
    by simp
  have "on_result events
       (QuicDataPathBindingDelete 1000 (example_binding 5) (initialized_datapath 3 [] [] [])
          registered_world) = Inr ?done"
    unfolding run by simp
  with before closed final show ?thesis by blast
qed


end
